theory Spec2Isabelle
  imports Main "HOL-Library.Word"
begin

section \<open>Go values as package reflect shows them\<close>

text \<open>
  Package assign (assign.go, source.go, option.go, error.go) walks a destination
  through Go's package reflect and a source through the interface \<open>Source\<close>.
  The destination is modelled as a tree of values that describe their own type, the way a
  \<open>reflect.Value\<close> does: a pointer holds its pointee, a map its entries, a slice its
  elements and capacity. Two destination pointers to one object are therefore two
  trees: the model covers destinations without sharing. The source is any implementation
  of \<open>Source\<close>, so it may share and may be cyclic.

  \<open>uintptr\<close> is the identity token of \<open>Source.Pointer\<close>; only equality and the
  zero value are used. A panic carries its message.
\<close>

type_synonym uintptr = "64 word"
type_synonym payload = string

text \<open>\<open>reflect.Kind\<close>, in the order of the Go declaration.\<close>

datatype kind =
    KInvalid | KBool
  | KInt | KInt8 | KInt16 | KInt32 | KInt64
  | KUint | KUint8 | KUint16 | KUint32 | KUint64 | KUintptr
  | KFloat32 | KFloat64 | KComplex64 | KComplex128
  | KArray | KChan | KFunc | KInterface | KMap | KPtr | KSlice | KString | KStruct
  | KUnsafePointer

text \<open>
  \<open>reflect.Type\<close>. \<open>TNil\<close> is the nil type that \<open>reflect.TypeOf(nil)\<close> returns.
  \<open>TNamed\<close> refers to a declared type by name, so that a recursive declaration such as
  \<open>type Cycle struct { Struct *Cycle }\<close> is a finite term; it stands behind a pointer,
  slice, map or channel, and a type used by value is written out.
  \<open>StructField\<close> is \<open>reflect.StructField\<close>: a field is exported when its
  \<open>PkgPath\<close> is empty. Its tag is kept as the list of key and value pairs that
  \<open>StructTag.Get\<close> reads.
\<close>

datatype gotype =
    TNil
  | TBasic kind
  | TPtr gotype
  | TStruct "StructField list"
  | TMap gotype gotype
  | TSlice gotype
  | TArray nat gotype
  | TInterface
  | TChan gotype
  | TFunc
  | TUnsafePointer
  | TNamed string
and StructField =
  StructField (Name: string) (PkgPath: string) (Typ: gotype) (Tag: "(string \<times> string) list")

text \<open>
  A Go value. \<open>VInvalid\<close> is the zero \<open>reflect.Value\<close> (what
  \<open>reflect.ValueOf(nil)\<close> returns). Floats are kept as their bits. A nil pointer,
  map, slice or interface holds \<open>None\<close>. \<open>VRef\<close> is a channel, function or
  unsafe pointer: its type and whether it is nil.
\<close>

datatype gval =
    VInvalid
  | VBool bool
  | VInt kind int
  | VUint kind nat
  | VFloat kind "64 word"
  | VComplex kind "64 word" "64 word"
  | VString string
  | VPtr gotype "gval option"
  | VStruct "(StructField \<times> gval) list"
  | VMap gotype gotype "(gval \<times> gval) list option"
  | VSlice gotype "(gval list \<times> nat) option"
  | VArray gotype "gval list"
  | VIface "gval option"
  | VRef gotype bool

fun kindOf :: "gotype \<Rightarrow> kind" where
  "kindOf TNil = KInvalid"
| "kindOf (TBasic k) = k"
| "kindOf (TPtr t) = KPtr"
| "kindOf (TStruct fs) = KStruct"
| "kindOf (TMap k v) = KMap"
| "kindOf (TSlice t) = KSlice"
| "kindOf (TArray n t) = KArray"
| "kindOf TInterface = KInterface"
| "kindOf (TChan t) = KChan"
| "kindOf TFunc = KFunc"
| "kindOf TUnsafePointer = KUnsafePointer"
| "kindOf (TNamed n) = KInvalid"

text \<open>The declared types of the program, by name.\<close>

type_synonym decls = "string \<Rightarrow> gotype"

fun resolve :: "decls \<Rightarrow> gotype \<Rightarrow> gotype" where
  "resolve N (TNamed n) = N n"
| "resolve N t = t"

definition Type_Kind :: "decls \<Rightarrow> gotype \<Rightarrow> kind" where
  "Type_Kind N t = kindOf (resolve N t)"

text \<open>\<open>Value.Kind\<close>: \<open>Invalid\<close> for the zero Value.\<close>

fun Value_Kind :: "gval \<Rightarrow> kind" where
  "Value_Kind VInvalid = KInvalid"
| "Value_Kind (VBool b) = KBool"
| "Value_Kind (VInt k i) = k"
| "Value_Kind (VUint k n) = k"
| "Value_Kind (VFloat k w) = k"
| "Value_Kind (VComplex k re im) = k"
| "Value_Kind (VString s) = KString"
| "Value_Kind (VPtr t p) = KPtr"
| "Value_Kind (VStruct fs) = KStruct"
| "Value_Kind (VMap kt vt es) = KMap"
| "Value_Kind (VSlice t xs) = KSlice"
| "Value_Kind (VArray t xs) = KArray"
| "Value_Kind (VIface x) = KInterface"
| "Value_Kind (VRef t n) = kindOf t"

text \<open>\<open>Value.Type\<close> panics on the zero Value.\<close>

fun Value_Type :: "gval \<Rightarrow> payload + gotype" where
  "Value_Type VInvalid = Inl ''reflect: call of reflect.Value.Type on zero Value''"
| "Value_Type (VBool b) = Inr (TBasic KBool)"
| "Value_Type (VInt k i) = Inr (TBasic k)"
| "Value_Type (VUint k n) = Inr (TBasic k)"
| "Value_Type (VFloat k w) = Inr (TBasic k)"
| "Value_Type (VComplex k re im) = Inr (TBasic k)"
| "Value_Type (VString s) = Inr (TBasic KString)"
| "Value_Type (VPtr t p) = Inr (TPtr t)"
| "Value_Type (VStruct fs) = Inr (TStruct (map fst fs))"
| "Value_Type (VMap kt vt es) = Inr (TMap kt vt)"
| "Value_Type (VSlice t xs) = Inr (TSlice t)"
| "Value_Type (VArray t xs) = Inr (TArray (length xs) t)"
| "Value_Type (VIface x) = Inr TInterface"
| "Value_Type (VRef t n) = Inr t"

text \<open>
  The zero value of a type, as \<open>reflect.New\<close>, \<open>reflect.MakeSlice\<close> and
  \<open>reflect.Zero\<close> produce it. A name is resolved by the caller; a name met by value
  inside a type is a declaration Go rejects (an invalid recursive type).
\<close>

primrec zero :: "gotype \<Rightarrow> gval" and zeroField :: "StructField \<Rightarrow> StructField \<times> gval" where
  "zero TNil = VInvalid"
| "zero (TBasic k) =
     (if k = KBool then VBool False
      else if k \<in> {KInt, KInt8, KInt16, KInt32, KInt64} then VInt k 0
      else if k \<in> {KUint, KUint8, KUint16, KUint32, KUint64, KUintptr} then VUint k 0
      else if k \<in> {KFloat32, KFloat64} then VFloat k 0
      else if k \<in> {KComplex64, KComplex128} then VComplex k 0 0
      else if k = KString then VString []
      else VInvalid)"
| "zero (TPtr t) = VPtr t None"
| "zero (TStruct fs) = VStruct (map zeroField fs)"
| "zero (TMap kt vt) = VMap kt vt None"
| "zero (TSlice t) = VSlice t None"
| "zero (TArray n t) = VArray t (replicate n (zero t))"
| "zero TInterface = VIface None"
| "zero (TChan t) = VRef (TChan t) True"
| "zero TFunc = VRef TFunc True"
| "zero TUnsafePointer = VRef TUnsafePointer True"
| "zero (TNamed n) = VInvalid"
| "zeroField (StructField n p t tg) = (StructField n p t tg, zero t)"

text \<open>
  What the walk needs of package reflect beyond the values: the declarations, and
  \<open>Type.ConvertibleTo\<close> and \<open>Value.Convert\<close>, which are the Go language's
  conversion rules and are taken as given.
\<close>

record reflect =
  named :: decls
  ConvertibleTo :: "gotype \<Rightarrow> gotype \<Rightarrow> bool"
  Convert :: "gval \<Rightarrow> gotype \<Rightarrow> gval"

text \<open>
  A destination slot: a \<open>reflect.Value\<close> with its settable flag. \<open>CanSet\<close> is
  false for the zero Value.
\<close>

record Value =
  goval :: gval
  flagCanSet :: bool

definition CanSet :: "Value \<Rightarrow> bool" where
  "CanSet dv = (flagCanSet dv \<and> goval dv \<noteq> VInvalid)"

section \<open>source.go: the interface Source\<close>

text \<open>
  The methods of \<open>Source\<close>, over the source's values \<open>'n\<close>. Every method of an
  implementation may panic (\<open>Inl\<close>). \<open>MapRange\<close> gives the pairs its iterator
  yields, in the iterator's order. \<open>Interface\<close> gives the boxed Go value;
  \<open>reflect.ValueOf\<close> of a nil interface is the zero Value.
\<close>

record 'n Source =
  Kind :: "'n \<Rightarrow> payload + kind"
  Elem :: "'n \<Rightarrow> payload + 'n"
  FieldByName :: "'n \<Rightarrow> string \<Rightarrow> payload + 'n"
  Len :: "'n \<Rightarrow> payload + int"
  Index :: "'n \<Rightarrow> int \<Rightarrow> payload + 'n"
  Pointer :: "'n \<Rightarrow> payload + uintptr"
  MapRange :: "'n \<Rightarrow> payload + ('n \<times> 'n) list"
  Skip :: "'n \<Rightarrow> payload + bool"
  Interface :: "'n \<Rightarrow> payload + gval"

section \<open>error.go\<close>

datatype error =
    ErrorType gotype kind
  | ErrorCycle gotype kind
  | ErrorPanic payload

definition newError :: "gotype \<Rightarrow> kind \<Rightarrow> error" where
  "newError dst srck = ErrorType dst srck"

section \<open>assign.go\<close>

text \<open>
  How a call ends: it returns its \<open>error\<close> (\<open>None\<close> is nil), it panics, or the
  recursion needs more stack frames than there are. Go cannot recover from an exhausted
  stack; a walk that is \<open>OutOfStack\<close> for every number of frames does not return.
\<close>

datatype flow = Return "error option" | Panic payload | OutOfStack

record metadata =
  visited :: "uintptr set"
  cur :: uintptr

record 'n Assigner =
  src :: 'n
  tags :: "string list"
  cycle :: bool

definition ptrSet :: "kind set" where
  "ptrSet = {KPtr, KMap, KSlice, KChan, KFunc, KUnsafePointer}"

definition elemSet :: "kind set" where
  "elemSet = {KPtr, KInterface}"

definition listSet :: "kind set" where
  "listSet = {KSlice, KArray}"

text \<open>
  \<open>visit\<close> returns whether a cycle was found, and the metadata as it leaves it.
  \<open>md\<close> is a Go pointer: nil when cycle checks are off.
\<close>

definition nilDeref :: payload where
  "nilDeref = ''runtime error: invalid memory address or nil pointer dereference''"

definition visit ::
  "'n Source \<Rightarrow> 'n Assigner \<Rightarrow> 'n \<Rightarrow> metadata option \<Rightarrow> (payload + bool) \<times> metadata option" where
  "visit S a v md =
    (if \<not> cycle a then (Inr False, md)
     else case Kind S v of
         Inl p \<Rightarrow> (Inl p, md)
       | Inr k \<Rightarrow>
          if k \<notin> ptrSet then
            (case md of
               None \<Rightarrow> (Inl nilDeref, md)
             | Some m \<Rightarrow> (Inr False, Some (m\<lparr>cur := 0\<rparr>)))
          else
            (case Pointer S v of
               Inl p \<Rightarrow> (Inl p, md)
             | Inr ptr \<Rightarrow>
                (case md of
                   None \<Rightarrow> (Inl nilDeref, md)
                 | Some m \<Rightarrow>
                    if ptr = cur m then (Inr False, md)
                    else
                      (let m1 = m\<lparr>cur := ptr\<rparr>;
                           ok = (ptr \<in> visited m1)
                       in (Inr ok,
                           Some (if \<not> ok then m1\<lparr>visited := insert ptr (visited m1)\<rparr> else m1))))))"

text \<open>\<open>StructTag.Get\<close>: the value of the key, the empty string when the key is absent.\<close>

definition Tag_Get :: "(string \<times> string) list \<Rightarrow> string \<Rightarrow> string" where
  "Tag_Get tg key = (case map_of tg key of None \<Rightarrow> [] | Some v \<Rightarrow> v)"

fun nameOf_tags :: "string list \<Rightarrow> StructField \<Rightarrow> string" where
  "nameOf_tags [] sf = Name sf"
| "nameOf_tags (tg # rest) sf =
     (let name = Tag_Get (Tag sf) tg in if name \<noteq> [] then name else nameOf_tags rest sf)"

definition nameOf :: "'n Assigner \<Rightarrow> StructField \<Rightarrow> string" where
  "nameOf a sf = nameOf_tags (tags a) sf"

text \<open>
  A Go loop \<open>for ... { ...; if err != nil { return err } }; return nil\<close> over the
  state \<open>'s\<close>: it stops at the first pass that does not return nil.
\<close>

fun forEach :: "('i \<Rightarrow> 's \<Rightarrow> flow \<times> 's) \<Rightarrow> 'i list \<Rightarrow> 's \<Rightarrow> flow \<times> 's" where
  "forEach body [] s = (Return None, s)"
| "forEach body (i # js) s =
     (case body i s of
        (Return None, s') \<Rightarrow> forEach body js s'
      | r \<Rightarrow> r)"

text \<open>
  The recursive call \<open>a.assign(dv, sv, md)\<close>: from a slot, a source and the metadata
  to how the call ends, the slot's value and the metadata afterwards.
\<close>

type_synonym 'n walk = "Value \<Rightarrow> 'n \<Rightarrow> metadata option \<Rightarrow> flow \<times> gval \<times> metadata option"

definition assignPointer :: "'n walk \<Rightarrow> reflect \<Rightarrow> 'n walk" where
  "assignPointer rec R dp sp md =
    (case goval dp of
       VPtr t pointee \<Rightarrow>
         (let cell = (case pointee of None \<Rightarrow> zero (resolve (named R) t) | Some x \<Rightarrow> x)
          in case rec \<lparr>goval = cell, flagCanSet = flagCanSet dp\<rparr> sp md of
               (fl, x', md') \<Rightarrow> (fl, VPtr t (Some x'), md'))
     | _ \<Rightarrow> (Panic ''reflect: call of reflect.Value.IsNil on a Value that is no pointer'', goval dp, md))"

definition assignBasic :: "reflect \<Rightarrow> 'n Source \<Rightarrow> Value \<Rightarrow> 'n \<Rightarrow> flow \<times> gval" where
  "assignBasic R S db sb =
    (case Interface S sb of
       Inl p \<Rightarrow> (Panic p, goval db)
     | Inr sv \<Rightarrow>
        (case Value_Type (goval db) of
           Inl p \<Rightarrow> (Panic p, goval db)
         | Inr dt \<Rightarrow>
            (case Value_Type sv of
               Inl p \<Rightarrow> (Panic p, goval db)
             | Inr st \<Rightarrow>
                if \<not> ConvertibleTo R st dt
                then (Return (Some (newError dt (Type_Kind (named R) st))), goval db)
                else (Return None, Convert R sv dt))))"

definition assignStruct :: "'n walk \<Rightarrow> 'n Source \<Rightarrow> 'n Assigner \<Rightarrow> 'n walk" where
  "assignStruct rec S a ds ss md =
    (case Value_Type (goval ds) of
       Inl p \<Rightarrow> (Panic p, goval ds, md)
     | Inr dt \<Rightarrow>
        (case Kind S ss of
           Inl p \<Rightarrow> (Panic p, goval ds, md)
         | Inr sk \<Rightarrow>
            if sk \<noteq> KStruct then (Return (Some (newError dt sk)), goval ds, md)
            else
              (case goval ds of
                 VStruct fs0 \<Rightarrow>
                   forEach
                     (\<lambda>i (d, m).
                        case d of
                          VStruct fs \<Rightarrow>
                            (let f = fst (fs ! i);
                                 df = \<lparr>goval = snd (fs ! i),
                                       flagCanSet = (flagCanSet ds \<and> PkgPath f = [])\<rparr>;
                                 dn = nameOf a f
                             in case FieldByName S ss dn of
                                  Inl p \<Rightarrow> (Panic p, d, m)
                                | Inr sf \<Rightarrow>
                                   (case rec df sf m of
                                      (fl, fv, m') \<Rightarrow> (fl, VStruct (fs[i := (f, fv)]), m')))
                        | _ \<Rightarrow> (Panic ''reflect: call of reflect.Value.Field on a Value that is no struct'', d, m))
                     [0..<length fs0] (goval ds, md)
               | _ \<Rightarrow> (Panic ''reflect: call of reflect.Value.NumField on a Value that is no struct'', goval ds, md))))"

text \<open>
  \<open>Value.SetMapIndex\<close> with a valid element: the entry of the key is replaced, or
  a new entry is added. Keys are compared as values. It panics when the key cannot be
  hashed: a slice, map or function behind an interface.
\<close>

fun SetMapIndex :: "(gval \<times> gval) list \<Rightarrow> gval \<Rightarrow> gval \<Rightarrow> (gval \<times> gval) list" where
  "SetMapIndex [] k v = [(k, v)]"
| "SetMapIndex (e # es) k v = (if fst e = k then (k, v) # es else e # SetMapIndex es k v)"

fun hashable :: "gval \<Rightarrow> bool" where
  "hashable (VSlice t xs) = False"
| "hashable (VMap kt vt es) = False"
| "hashable (VRef t n) = (kindOf t \<noteq> KFunc)"
| "hashable (VIface (Some x)) = hashable x"
| "hashable (VStruct fs) = list_all (\<lambda>f. hashable (snd f)) fs"
| "hashable (VArray t xs) = list_all hashable xs"
| "hashable v = True"

definition assignMap :: "'n walk \<Rightarrow> reflect \<Rightarrow> 'n Source \<Rightarrow> 'n walk" where
  "assignMap rec R S dm sm md =
    (case Value_Type (goval dm) of
       Inl p \<Rightarrow> (Panic p, goval dm, md)
     | Inr dt \<Rightarrow>
        (case Kind S sm of
           Inl p \<Rightarrow> (Panic p, goval dm, md)
         | Inr sk \<Rightarrow>
            if sk \<noteq> KMap then (Return (Some (newError dt sk)), goval dm, md)
            else
              (case goval dm of
                 VMap kt vt entries \<Rightarrow>
                   (let made =
                        (case entries of
                           Some es \<Rightarrow> Inr es
                         | None \<Rightarrow>
                            (case Len S sm of
                               Inl p \<Rightarrow> Inl p
                             | Inr n \<Rightarrow>
                                if n < 0 then Inl ''reflect.MakeMapWithSize of negative size''
                                else Inr []))
                    in case made of
                         Inl p \<Rightarrow> (Panic p, goval dm, md)
                       | Inr es0 \<Rightarrow>
                          (case MapRange S sm of
                             Inl p \<Rightarrow> (Panic p, VMap kt vt (Some es0), md)
                           | Inr pairs \<Rightarrow>
                              forEach
                                (\<lambda>(sk, sv) (d, m).
                                   case rec \<lparr>goval = zero (resolve (named R) kt), flagCanSet = True\<rparr> sk m of
                                     (Return None, dk, m1) \<Rightarrow>
                                       (case rec \<lparr>goval = zero (resolve (named R) vt), flagCanSet = True\<rparr> sv m1 of
                                          (Return None, dv, m2) \<Rightarrow>
                                            (case d of
                                               VMap kt' vt' (Some es) \<Rightarrow>
                                                 if hashable dk
                                                 then (Return None, VMap kt' vt' (Some (SetMapIndex es dk dv)), m2)
                                                 else (Panic ''runtime error: hash of unhashable type'', d, m2)
                                             | _ \<Rightarrow> (Panic ''assignment to entry in nil map'', d, m2))
                                        | (fl, dv, m2) \<Rightarrow> (fl, d, m2))
                                   | (fl, dk, m1) \<Rightarrow> (fl, d, m1))
                                pairs (VMap kt vt (Some es0), md)))
               | _ \<Rightarrow> (Panic ''reflect: call of reflect.Value.IsNil on a Value that is no map'', goval dm, md))))"

text \<open>
  \<open>Value.Len\<close>, the elements of a slice or array, and the write through
  \<open>Value.Index(i)\<close>. \<open>reflect.MakeSlice(dt, n, n)\<close> panics on a negative length.
\<close>

fun Value_Len :: "gval \<Rightarrow> payload + int" where
  "Value_Len (VSlice t None) = Inr 0"
| "Value_Len (VSlice t (Some (xs, c))) = Inr (int (length xs))"
| "Value_Len (VArray t xs) = Inr (int (length xs))"
| "Value_Len (VString s) = Inr (int (length s))"
| "Value_Len (VMap kt vt None) = Inr 0"
| "Value_Len (VMap kt vt (Some es)) = Inr (int (length es))"
| "Value_Len v = Inl ''reflect: call of reflect.Value.Len on a Value that has no length''"

fun elems :: "gval \<Rightarrow> gval list" where
  "elems (VSlice t (Some (xs, c))) = xs"
| "elems (VArray t xs) = xs"
| "elems v = []"

fun setElem :: "gval \<Rightarrow> nat \<Rightarrow> gval \<Rightarrow> gval" where
  "setElem (VSlice t (Some (xs, c))) i e = VSlice t (Some (xs[i := e], c))"
| "setElem (VArray t xs) i e = VArray t (xs[i := e])"
| "setElem v i e = v"

definition MakeSlice :: "reflect \<Rightarrow> gotype \<Rightarrow> int \<Rightarrow> int \<Rightarrow> payload + gval" where
  "MakeSlice R t n c =
    (if n < 0 then Inl ''reflect.MakeSlice: negative len''
     else if c < 0 then Inl ''reflect.MakeSlice: negative cap''
     else if n > c then Inl ''reflect.MakeSlice: len > cap''
     else Inr (VSlice t (Some (replicate (nat n) (zero (resolve (named R) t)), nat c))))"

definition assignList :: "'n walk \<Rightarrow> 'n Source \<Rightarrow> 'n walk" where
  "assignList rec S dl sl md =
    (case Len S sl of
       Inl p \<Rightarrow> (Panic p, goval dl, md)
     | Inr n0 \<Rightarrow>
        (case Value_Len (goval dl) of
           Inl p \<Rightarrow> (Panic p, goval dl, md)
         | Inr dn \<Rightarrow>
            (let n = (if n0 > dn then dn else n0)
             in forEach
                  (\<lambda>i (d, m).
                     case Index S sl (int i) of
                       Inl p \<Rightarrow> (Panic p, d, m)
                     | Inr se \<Rightarrow>
                        (case rec \<lparr>goval = elems d ! i, flagCanSet = flagCanSet dl\<rparr> se m of
                           (fl, e, m') \<Rightarrow> (fl, setElem d i e, m')))
                  [0..<nat n] (goval dl, md))))"

definition assignSlice :: "'n walk \<Rightarrow> reflect \<Rightarrow> 'n Source \<Rightarrow> 'n walk" where
  "assignSlice rec R S ds ss md =
    (case Value_Type (goval ds) of
       Inl p \<Rightarrow> (Panic p, goval ds, md)
     | Inr dt \<Rightarrow>
        (case Kind S ss of
           Inl p \<Rightarrow> (Panic p, goval ds, md)
         | Inr sk \<Rightarrow>
            if sk \<notin> listSet then (Return (Some (newError dt sk)), goval ds, md)
            else
              (case goval ds of
                 VSlice t None \<Rightarrow>
                   (case Len S ss of
                      Inl p \<Rightarrow> (Panic p, goval ds, md)
                    | Inr n \<Rightarrow>
                       (case MakeSlice R t n n of
                          Inl p \<Rightarrow> (Panic p, goval ds, md)
                        | Inr made \<Rightarrow> assignList rec S (ds\<lparr>goval := made\<rparr>) ss md))
               | _ \<Rightarrow> assignList rec S ds ss md)))"

definition assignArray :: "'n walk \<Rightarrow> 'n Source \<Rightarrow> 'n walk" where
  "assignArray rec S da sa md =
    (case Kind S sa of
       Inl p \<Rightarrow> (Panic p, goval da, md)
     | Inr sk \<Rightarrow>
        if sk \<notin> listSet then
          (case Value_Type (goval da) of
             Inl p \<Rightarrow> (Panic p, goval da, md)
           | Inr dt \<Rightarrow> (Return (Some (newError dt sk)), goval da, md))
        else assignList rec S da sa md)"

text \<open>
  One activation of \<open>assign\<close>, with the recursive call as \<open>rec\<close>. The switch on the
  destination's kind is the chain of its cases.
\<close>

definition assign_step :: "'n walk \<Rightarrow> reflect \<Rightarrow> 'n Source \<Rightarrow> 'n Assigner \<Rightarrow> 'n walk" where
  "assign_step rec R S a dv sv md =
    (if \<not> CanSet dv then (Return None, goval dv, md)
     else
       (case Skip S sv of
          Inl p \<Rightarrow> (Panic p, goval dv, md)
        | Inr skip \<Rightarrow>
           if skip then (Return None, goval dv, md)
           else
             (case visit S a sv md of
                (Inl p, md1) \<Rightarrow> (Panic p, goval dv, md1)
              | (Inr found, md1) \<Rightarrow>
                 if found then
                   (case Value_Type (goval dv) of
                      Inl p \<Rightarrow> (Panic p, goval dv, md1)
                    | Inr dt \<Rightarrow>
                       (case Kind S sv of
                          Inl p \<Rightarrow> (Panic p, goval dv, md1)
                        | Inr sk \<Rightarrow> (Return (Some (ErrorCycle dt sk)), goval dv, md1)))
                 else
                   (case Kind S sv of
                      Inl p \<Rightarrow> (Panic p, goval dv, md1)
                    | Inr sk \<Rightarrow>
                       if sk \<in> elemSet then
                         (case Elem S sv of
                            Inl p \<Rightarrow> (Panic p, goval dv, md1)
                          | Inr e \<Rightarrow> rec dv e md1)
                       else
                         (let dk = Value_Kind (goval dv)
                          in if dk = KPtr then assignPointer rec R dv sv md1
                             else if dk = KStruct then assignStruct rec S a dv sv md1
                             else if dk = KMap then assignMap rec R S dv sv md1
                             else if dk = KSlice then assignSlice rec R S dv sv md1
                             else if dk = KArray then assignArray rec S dv sv md1
                             else (case assignBasic R S dv sv of (fl, x) \<Rightarrow> (fl, x, md1)))))))"

text \<open>
  \<open>assign\<close> with \<open>k\<close> stack frames left for its activations: each recursive call
  takes one.
\<close>

primrec assign :: "nat \<Rightarrow> reflect \<Rightarrow> 'n Source \<Rightarrow> 'n Assigner \<Rightarrow> 'n walk" where
  "assign 0 R S a = (\<lambda>dv sv md. (OutOfStack, goval dv, md))"
| "assign (Suc k) R S a = assign_step (assign k R S a) R S a"

text \<open>
  \<open>assignRecover\<close>: the deferred function runs when \<open>assign\<close> returns or panics;
  \<open>recover()\<close> is not nil exactly when it panicked.
\<close>

definition assignRecover :: "nat \<Rightarrow> reflect \<Rightarrow> 'n Source \<Rightarrow> 'n Assigner \<Rightarrow> Value \<Rightarrow> metadata option \<Rightarrow> flow \<times> gval \<times> metadata option" where
  "assignRecover k R S a dv md =
    (case assign k R S a dv (src a) md of
       (Panic r, x, md') \<Rightarrow> (Return (Some (ErrorPanic r)), x, md')
     | res \<Rightarrow> res)"

text \<open>
  \<open>To\<close>: \<open>dv\<close> is \<open>valueOf(dst)\<close> and \<open>p\<close> is the address the root pointer
  holds, which \<open>dv.Pointer()\<close> reads. The result is how the call ends and the root
  afterwards.
\<close>

definition To :: "nat \<Rightarrow> reflect \<Rightarrow> 'n Source \<Rightarrow> 'n Assigner \<Rightarrow> gval \<Rightarrow> uintptr \<Rightarrow> flow \<times> gval" where
  "To k R S a dv p =
    (if Value_Kind dv \<noteq> KPtr then
       (case Value_Type dv of
          Inl x \<Rightarrow> (Panic x, dv)
        | Inr t \<Rightarrow>
           (case Kind S (src a) of
              Inl x \<Rightarrow> (Panic x, dv)
            | Inr sk \<Rightarrow> (Return (Some (newError t sk)), dv)))
     else
       (case dv of
          VPtr t None \<Rightarrow>
            (case Kind S (src a) of
               Inl x \<Rightarrow> (Panic x, dv)
             | Inr sk \<Rightarrow> (Return (Some (newError TNil sk)), dv))
        | VPtr t (Some x) \<Rightarrow>
            (let md = (if cycle a then Some \<lparr>visited = {p}, cur = 0\<rparr> else None)
             in case assignRecover k R S a \<lparr>goval = x, flagCanSet = True\<rparr> md of
                  (fl, x', md') \<Rightarrow> (fl, VPtr t (Some x')))
        | _ \<Rightarrow> (Panic ''reflect: call of reflect.Value.IsNil on a Value that is no pointer'', dv)))"

section \<open>option.go, From and ToFrom\<close>

type_synonym 'n Option = "'n Assigner \<Rightarrow> 'n Assigner"

definition WithTags :: "string list \<Rightarrow> 'n Option" where
  "WithTags ts = (\<lambda>a. a\<lparr>tags := tags a @ ts\<rparr>)"

definition WithoutCycle :: "'n Option" where
  "WithoutCycle = (\<lambda>a. a\<lparr>cycle := False\<rparr>)"

text \<open>
  \<open>Of\<close> returns its argument when it is a \<open>Source\<close> and wraps a Go value in
  \<open>goSource\<close> otherwise; either way the result is a value of the source.
\<close>

definition Of :: "'n \<Rightarrow> 'n" where
  "Of i = i"

definition From :: "'n \<Rightarrow> 'n Option list \<Rightarrow> 'n Assigner" where
  "From s options = foldl (\<lambda>a option. option a) \<lparr>src = Of s, tags = [''assign''], cycle = True\<rparr> options"

definition ToFrom :: "nat \<Rightarrow> reflect \<Rightarrow> 'n Source \<Rightarrow> gval \<Rightarrow> uintptr \<Rightarrow> 'n \<Rightarrow> 'n Option list \<Rightarrow> flow \<times> gval" where
  "ToFrom k R S dst p s options = To k R S (From s options) dst p"

section \<open>source.go: goSource, the Source of Go values\<close>

text \<open>
  \<open>goSource\<close> hands every method to the \<open>reflect.Value\<close> it wraps. The source's Go
  values are given as the table of what package reflect reports of each: its kind,
  whether \<open>IsZero\<close> holds, the address \<open>Pointer\<close> returns, the value behind a pointer
  or interface, its fields by name, its elements, its map entries, and the Go value
  \<open>Interface\<close> boxes. A \<open>reflect.Value\<close> of the source is an index of the table;
  \<open>None\<close> (and an index outside the table) is the zero Value.
\<close>

datatype rnode =
  RNode (rkind: kind) (rzero: bool) (rptr: uintptr) (relem: "nat option")
    (rfields: "(string \<times> nat) list") (ritems: "nat list") (rentries: "(nat \<times> nat) list")
    (rbox: gval)

type_synonym rvalue = "nat option"

definition at :: "rnode list \<Rightarrow> rvalue \<Rightarrow> rnode option" where
  "at h v = (case v of None \<Rightarrow> None | Some n \<Rightarrow> if n < length h then Some (h ! n) else None)"

definition rv_Kind :: "rnode list \<Rightarrow> rvalue \<Rightarrow> kind" where
  "rv_Kind h v = (case at h v of None \<Rightarrow> KInvalid | Some nd \<Rightarrow> rkind nd)"

definition rv_IsValid :: "rnode list \<Rightarrow> rvalue \<Rightarrow> bool" where
  "rv_IsValid h v = (rv_Kind h v \<noteq> KInvalid)"

definition rv_IsZero :: "rnode list \<Rightarrow> rvalue \<Rightarrow> payload + bool" where
  "rv_IsZero h v =
    (case at h v of
       None \<Rightarrow> Inl ''reflect: call of reflect.Value.IsZero on zero Value''
     | Some nd \<Rightarrow>
        if rkind nd = KInvalid then Inl ''reflect: call of reflect.Value.IsZero on zero Value''
        else Inr (rzero nd))"

definition rv_Elem :: "rnode list \<Rightarrow> rvalue \<Rightarrow> payload + rvalue" where
  "rv_Elem h v =
    (case at h v of
       None \<Rightarrow> Inl ''reflect: call of reflect.Value.Elem on zero Value''
     | Some nd \<Rightarrow>
        if rkind nd \<in> {KPtr, KInterface} then Inr (relem nd)
        else Inl ''reflect: call of reflect.Value.Elem on a Value that is no pointer or interface'')"

definition rv_FieldByName :: "rnode list \<Rightarrow> rvalue \<Rightarrow> string \<Rightarrow> payload + rvalue" where
  "rv_FieldByName h v name =
    (case at h v of
       None \<Rightarrow> Inl ''reflect: call of reflect.Value.FieldByName on zero Value''
     | Some nd \<Rightarrow>
        if rkind nd = KStruct then Inr (map_of (rfields nd) name)
        else Inl ''reflect: call of reflect.Value.FieldByName on a Value that is no struct'')"

definition rv_Len :: "rnode list \<Rightarrow> rvalue \<Rightarrow> payload + int" where
  "rv_Len h v =
    (case at h v of
       None \<Rightarrow> Inl ''reflect: call of reflect.Value.Len on zero Value''
     | Some nd \<Rightarrow>
        if rkind nd \<in> {KArray, KSlice, KChan, KString} then Inr (int (length (ritems nd)))
        else if rkind nd = KMap then Inr (int (length (rentries nd)))
        else Inl ''reflect: call of reflect.Value.Len on a Value that has no length'')"

definition rv_Index :: "rnode list \<Rightarrow> rvalue \<Rightarrow> int \<Rightarrow> payload + rvalue" where
  "rv_Index h v i =
    (case at h v of
       None \<Rightarrow> Inl ''reflect: call of reflect.Value.Index on zero Value''
     | Some nd \<Rightarrow>
        if rkind nd \<in> {KArray, KSlice, KString} then
          (if 0 \<le> i \<and> i < int (length (ritems nd)) then Inr (Some (ritems nd ! nat i))
           else Inl ''reflect: index out of range'')
        else Inl ''reflect: call of reflect.Value.Index on a Value that has no elements'')"

definition rv_Pointer :: "rnode list \<Rightarrow> rvalue \<Rightarrow> payload + uintptr" where
  "rv_Pointer h v =
    (case at h v of
       None \<Rightarrow> Inl ''reflect: call of reflect.Value.Pointer on zero Value''
     | Some nd \<Rightarrow>
        if rkind nd \<in> {KChan, KFunc, KMap, KPtr, KSlice, KUnsafePointer} then Inr (rptr nd)
        else Inl ''reflect: call of reflect.Value.Pointer on a Value that has no pointer'')"

definition rv_MapRange :: "rnode list \<Rightarrow> rvalue \<Rightarrow> payload + (rvalue \<times> rvalue) list" where
  "rv_MapRange h v =
    (case at h v of
       None \<Rightarrow> Inl ''reflect: call of reflect.Value.MapRange on zero Value''
     | Some nd \<Rightarrow>
        if rkind nd = KMap then Inr (map (\<lambda>(k, x). (Some k, Some x)) (rentries nd))
        else Inl ''reflect: call of reflect.Value.MapRange on a Value that is no map'')"

definition rv_Interface :: "rnode list \<Rightarrow> rvalue \<Rightarrow> payload + gval" where
  "rv_Interface h v =
    (case at h v of
       None \<Rightarrow> Inl ''reflect: call of reflect.Value.Interface on zero Value''
     | Some nd \<Rightarrow> Inr (rbox nd))"

definition goSource :: "rnode list \<Rightarrow> rvalue Source" where
  "goSource h =
    \<lparr>Kind = (\<lambda>v. Inr (rv_Kind h v)),
     Elem = rv_Elem h,
     FieldByName = rv_FieldByName h,
     Len = rv_Len h,
     Index = rv_Index h,
     Pointer = rv_Pointer h,
     MapRange = rv_MapRange h,
     Skip = (\<lambda>v. if \<not> rv_IsValid h v then Inr True else rv_IsZero h v),
     Interface = rv_Interface h\<rparr>"

text \<open>
  assign_test.go: \<open>panicker\<close> embeds a Source and panics on \<open>Pointer\<close>. Its other
  methods are the embedded Source's, so the values that \<open>Elem\<close>, \<open>FieldByName\<close>,
  \<open>Index\<close> and \<open>MapRange\<close> give are values of the embedded Source, whose
  \<open>Pointer\<close> does not panic. \<open>Panicker s\<close> is \<open>panicker{Source: s}\<close> and
  \<open>Plain s\<close> is \<open>s\<close> itself.
\<close>

datatype 'n wrapped = Panicker 'n | Plain 'n

fun unwrap :: "'n wrapped \<Rightarrow> 'n" where
  "unwrap (Panicker s) = s"
| "unwrap (Plain s) = s"

definition panicker :: "'n Source \<Rightarrow> 'n wrapped Source" where
  "panicker S =
    \<lparr>Kind = (\<lambda>v. Kind S (unwrap v)),
     Elem = (\<lambda>v. case Elem S (unwrap v) of Inl p \<Rightarrow> Inl p | Inr e \<Rightarrow> Inr (Plain e)),
     FieldByName = (\<lambda>v name. case FieldByName S (unwrap v) name of
                                 Inl p \<Rightarrow> Inl p | Inr f \<Rightarrow> Inr (Plain f)),
     Len = (\<lambda>v. Len S (unwrap v)),
     Index = (\<lambda>v i. case Index S (unwrap v) i of Inl p \<Rightarrow> Inl p | Inr e \<Rightarrow> Inr (Plain e)),
     Pointer = (\<lambda>v. case v of Panicker s \<Rightarrow> Inl ''panicker'' | Plain s \<Rightarrow> Pointer S s),
     MapRange = (\<lambda>v. case MapRange S (unwrap v) of
                          Inl p \<Rightarrow> Inl p
                        | Inr es \<Rightarrow> Inr (map (\<lambda>(k, x). (Plain k, Plain x)) es)),
     Skip = (\<lambda>v. Skip S (unwrap v)),
     Interface = (\<lambda>v. Interface S (unwrap v))\<rparr>"

text \<open>
  A Source of one's own that has no addresses to give: it answers as the given one does,
  but its \<open>Pointer\<close> returns 0 for every value.
\<close>

definition noAddress :: "'n Source \<Rightarrow> 'n Source" where
  "noAddress S = S\<lparr>Pointer := (\<lambda>v. Inr 0)\<rparr>"

section \<open>Values of assign_test.go\<close>

text \<open>
  A \<open>reflect\<close> for the examples. Its conversions are Go's on the pairs the examples
  use: a type converts to itself and to \<open>interface{}\<close> (which boxes the value), and
  to nothing else here; in particular \<open>string\<close> does not convert to \<open>int\<close>.
\<close>

definition exampleReflect :: "decls \<Rightarrow> reflect" where
  "exampleReflect N =
    \<lparr>named = N,
     ConvertibleTo = (\<lambda>st dt. dt = TInterface \<or> st = dt),
     Convert = (\<lambda>v dt. if dt = TInterface then VIface (Some v) else v)\<rparr>"

text \<open>An exported field without a tag.\<close>

definition fld :: "string \<Rightarrow> gotype \<Rightarrow> StructField" where
  "fld n t = StructField n [] t []"

text \<open>
  \<open>type Cycle struct { Struct *Cycle; Map map[struct{}]interface{};
  Slice []interface{}; Array *[1]interface{} }\<close>
\<close>

definition tCycle :: gotype where
  "tCycle =
    TStruct [fld ''Struct'' (TPtr (TNamed ''Cycle'')),
             fld ''Map'' (TMap (TStruct []) TInterface),
             fld ''Slice'' (TSlice TInterface),
             fld ''Array'' (TPtr (TArray 1 TInterface))]"

definition cycleDecls :: decls where
  "cycleDecls n = (if n = ''Cycle'' then tCycle else TNil)"

text \<open>
  What reflect reports of \<open>newCycle()\<close>. Value 1 is the variable \<open>cycle\<close> at
  address \<open>pC\<close>; value 0 is \<open>cycle.Struct = &cycle\<close>. Value 2 is \<open>cycle.Map\<close> at
  \<open>pM\<close>, with the one entry from \<open>struct{}{}\<close> (value 3, a zero value) to an
  interface holding the map itself (value 4). Value 5 is \<open>cycle.Slice\<close> with its
  array at \<open>pS\<close>; its element (value 6) is an interface holding \<open>&cycle.Slice\<close>
  (value 7, the address \<open>pQ\<close>), which points to the slice again. Value 8 is
  \<open>cycle.Array\<close>, the address \<open>pA\<close> of the array (value 9) whose element (value 10)
  is an interface holding that pointer. \<open>b\<close> stands for the Go value that
  \<open>Interface\<close> would box for the values that reach themselves.
\<close>

definition newCycle ::
  "uintptr \<Rightarrow> uintptr \<Rightarrow> uintptr \<Rightarrow> uintptr \<Rightarrow> uintptr \<Rightarrow> gval \<Rightarrow> rnode list" where
  "newCycle pC pM pS pQ pA b =
    [RNode KPtr False pC (Some 1) [] [] [] b,
     RNode KStruct False 0 None
       [(''Struct'', 0), (''Map'', 2), (''Slice'', 5), (''Array'', 8)] [] [] b,
     RNode KMap False pM None [] [] [(3, 4)] b,
     RNode KStruct True 0 None [] [] [] (VStruct []),
     RNode KInterface False 0 (Some 2) [] [] [] b,
     RNode KSlice False pS None [] [6] [] b,
     RNode KInterface False 0 (Some 7) [] [] [] b,
     RNode KPtr False pQ (Some 5) [] [] [] b,
     RNode KPtr False pA (Some 9) [] [] [] b,
     RNode KArray False 0 None [] [10] [] b,
     RNode KInterface False 0 (Some 8) [] [] [] b]"

text \<open>
  \<open>type Fields struct { Exported string; notExported int }\<close> of package assign, and
  what reflect reports of \<open>Fields{Exported: "0", notExported: 1}\<close> (values 0 to 2)
  and of the \<open>int\<close> zero (value 3).
\<close>

definition tFields :: gotype where
  "tFields =
    TStruct [StructField ''Exported'' [] (TBasic KString) [],
             StructField ''notExported'' ''assign'' (TBasic KInt) []]"

definition fieldsHeap :: "rnode list" where
  "fieldsHeap =
    [RNode KStruct False 0 None [(''Exported'', 1), (''notExported'', 2)] [] [] VInvalid,
     RNode KString False 0 None [] [] [] (VString ''0''),
     RNode KInt False 0 None [] [] [] (VInt KInt 1),
     RNode KInt True 0 None [] [] [] (VInt KInt 0)]"

text \<open>
  \<open>type T struct { X int }\<close> and \<open>type D struct { A *T; B int; C *T }\<close>, and what
  reflect reports of \<open>D{A: p, B: b, C: p}\<close> with \<open>p = &T{X: x}\<close> at the address
  \<open>pT\<close>: one pointer in two sibling fields, with an \<open>int\<close> between them. Value 0
  is the \<open>D\<close>, value 1 the pointer, value 2 the \<open>T\<close> (a zero value when \<open>x\<close> is 0),
  value 3 the field \<open>B\<close> and value 4 the field \<open>X\<close>.
\<close>

definition tT :: gotype where
  "tT = TStruct [fld ''X'' (TBasic KInt)]"

definition tD :: gotype where
  "tD = TStruct [fld ''A'' (TPtr tT), fld ''B'' (TBasic KInt), fld ''C'' (TPtr tT)]"

definition sharedHeap :: "uintptr \<Rightarrow> int \<Rightarrow> int \<Rightarrow> rnode list" where
  "sharedHeap pT x b =
    [RNode KStruct False 0 None [(''A'', 1), (''B'', 3), (''C'', 1)] [] [] VInvalid,
     RNode KPtr False pT (Some 2) [] [] [] VInvalid,
     RNode KStruct (x = 0) 0 None [(''X'', 4)] [] [] VInvalid,
     RNode KInt (b = 0) 0 None [] [] [] (VInt KInt b),
     RNode KInt (x = 0) 0 None [] [] [] (VInt KInt x)]"

section \<open>Properties of the walk\<close>

text \<open>A walk that never returns the error of a recovered panic.\<close>

definition noErrorPanic :: "'n walk \<Rightarrow> bool" where
  "noErrorPanic rec = (\<forall>dv sv md r. fst (rec dv sv md) \<noteq> Return (Some (ErrorPanic r)))"

text \<open>
  \<open>type Tags\<close> of assign_test.go, each field with its tag as \<open>StructTag.Get\<close> reads
  it: after \<open>assign:"BarGoToFoo"\<close> the first field's tag goes on with a comma, so its
  second key is \<open>,json\<close>. Values 0 to 4 are what reflect reports of
  \<open>Tags{FooGoToBar: "one", BarGoToFoo: "two", BazGoToQux: "three", QuxGoToBaz: "four"}\<close>.
\<close>

definition tTags :: gotype where
  "tTags =
    TStruct [StructField ''FooGoToBar'' [] (TBasic KString)
               [(''assign'', ''BarGoToFoo''), ('',json'', ''FooGoToBar'')],
             StructField ''BarGoToFoo'' [] (TBasic KString)
               [(''assign'', ''FooGoToBar''), (''json'', ''BarGoToFoo'')],
             StructField ''BazGoToQux'' [] (TBasic KString) [(''json'', ''QuxGoToBaz'')],
             StructField ''QuxGoToBaz'' [] (TBasic KString) [(''json'', ''BazGoToQux'')]]"

definition tagsHeap :: "rnode list" where
  "tagsHeap =
    [RNode KStruct False 0 None
       [(''FooGoToBar'', 1), (''BarGoToFoo'', 2), (''BazGoToQux'', 3), (''QuxGoToBaz'', 4)] [] [] VInvalid,
     RNode KString False 0 None [] [] [] (VString ''one''),
     RNode KString False 0 None [] [] [] (VString ''two''),
     RNode KString False 0 None [] [] [] (VString ''three''),
     RNode KString False 0 None [] [] [] (VString ''four'')]"


text \<open>
  \<open>above m0 md\<close>: the metadata is there and its visited set holds every token of
  \<open>m0\<close>'s. A walk \<open>keeps\<close> the visited set when it only adds to it.
\<close>

definition above :: "metadata \<Rightarrow> metadata option \<Rightarrow> bool" where
  "above m0 md = (\<exists>m'. md = Some m' \<and> visited m0 \<subseteq> visited m')"

definition keeps :: "'n walk \<Rightarrow> bool" where
  "keeps rec = (\<forall>dv sv m0 md. above m0 md \<longrightarrow> above m0 (snd (snd (rec dv sv md))))"

section \<open>The cycle check\<close>

text \<open>
  C2. A step of \<open>assign\<close> whose slot is settable and whose source does not report
  \<open>Skip\<close> calls \<open>visit\<close> once, before anything else: a panic of \<open>visit\<close> is the
  step's, a cycle found is the step's \<open>ErrorCycle\<close>, and otherwise the rest of the step
  runs from the metadata \<open>visit\<close> left and calls it no more (it is the step with the
  check switched off). A step whose slot is not settable or whose source reports
  \<open>Skip\<close> returns before \<open>visit\<close> and leaves the metadata as it was.
  With cycle detection enabled, \<open>visit\<close> on a source whose kind is none of pointer,
  map, slice, chan, func and unsafe pointer sets the current token to zero and returns
  false. On a source of one of these kinds it reads the token: when the token is the
  current one it returns false and records nothing; otherwise it makes the token the
  current one, returns true when the token is already in the visited set, and otherwise
  adds it to the set and returns false. \<open>To\<close> starts the walk with the visited set
  holding the address of the destination root and the current token zero.
\<close>

theorem visit_protocol:
  assumes "cycle a" and "Kind S v = Inr k"
  shows
    "(k \<notin> {KPtr, KMap, KSlice, KChan, KFunc, KUnsafePointer} \<longrightarrow>
        visit S a v (Some m) = (Inr False, Some (m\<lparr>cur := 0\<rparr>)))
   \<and> (k \<in> {KPtr, KMap, KSlice, KChan, KFunc, KUnsafePointer} \<longrightarrow>
        (\<forall>t. Pointer S v = Inr t \<longrightarrow>
           visit S a v (Some m) =
             (if t = cur m then (Inr False, Some m)
              else if t \<in> visited m then (Inr True, Some (m\<lparr>cur := t\<rparr>))
              else (Inr False, Some (m\<lparr>cur := t, visited := insert t (visited m)\<rparr>)))))
   \<and> (\<forall>n R t x p. To n R S a (VPtr t (Some x)) p =
          (case assignRecover n R S a \<lparr>goval = x, flagCanSet = True\<rparr>
                  (Some \<lparr>visited = {p}, cur = 0\<rparr>) of
             (fl, x', md') \<Rightarrow> (fl, VPtr t (Some x'))))
   \<and> (\<forall>n R dv md. CanSet dv \<and> Skip S v = Inr False \<longrightarrow>
          assign (Suc n) R S a dv v md =
            (case visit S a v md of
               (Inl p, md1) \<Rightarrow> (Panic p, goval dv, md1)
             | (Inr found, md1) \<Rightarrow>
                 if found then
                   (case Value_Type (goval dv) of
                      Inl p \<Rightarrow> (Panic p, goval dv, md1)
                    | Inr dt \<Rightarrow> (Return (Some (ErrorCycle dt k)), goval dv, md1))
                 else assign_step (assign n R S a) R S (a\<lparr>cycle := False\<rparr>) dv v md1))
   \<and> (\<forall>n R dv md. \<not> CanSet dv \<or> Skip S v = Inr True \<longrightarrow>
          assign (Suc n) R S a dv v md = (Return None, goval dv, md))"
proof -
  have v: "visit S (a\<lparr>cycle := False\<rparr>) v md1 = (Inr False, md1)" for md1
    by (simp add: visit_def)
  have t: "tags (a\<lparr>cycle := False\<rparr>) = tags a"
    by simp
  have s: "assignStruct rec S (a\<lparr>cycle := False\<rparr>) = assignStruct rec S a" for rec
    unfolding assignStruct_def nameOf_def fun_eq_iff t by (rule allI refl)+
  have step: "assign (Suc n) R S a dv v md =
            (case visit S a v md of
               (Inl p, md1) \<Rightarrow> (Panic p, goval dv, md1)
             | (Inr found, md1) \<Rightarrow>
                 if found then
                   (case Value_Type (goval dv) of
                      Inl p \<Rightarrow> (Panic p, goval dv, md1)
                    | Inr dt \<Rightarrow> (Return (Some (ErrorCycle dt k)), goval dv, md1))
                 else assign_step (assign n R S a) R S (a\<lparr>cycle := False\<rparr>) dv v md1)"
    if "CanSet dv" "Skip S v = Inr False" for n R dv md
    using that assms(2)
    by (simp add: assign_step_def v s Let_def split: prod.splits sum.splits)
  have skip: "assign (Suc n) R S a dv v md = (Return None, goval dv, md)"
    if "\<not> CanSet dv \<or> Skip S v = Inr True" for n R dv md
    using that by (auto simp: assign_step_def)
  have vis: "(k \<notin> {KPtr, KMap, KSlice, KChan, KFunc, KUnsafePointer} \<longrightarrow>
        visit S a v (Some m) = (Inr False, Some (m\<lparr>cur := 0\<rparr>)))
   \<and> (k \<in> {KPtr, KMap, KSlice, KChan, KFunc, KUnsafePointer} \<longrightarrow>
        (\<forall>t. Pointer S v = Inr t \<longrightarrow>
           visit S a v (Some m) =
             (if t = cur m then (Inr False, Some m)
              else if t \<in> visited m then (Inr True, Some (m\<lparr>cur := t\<rparr>))
              else (Inr False, Some (m\<lparr>cur := t, visited := insert t (visited m)\<rparr>)))))
   \<and> (\<forall>n R t x p. To n R S a (VPtr t (Some x)) p =
          (case assignRecover n R S a \<lparr>goval = x, flagCanSet = True\<rparr>
                  (Some \<lparr>visited = {p}, cur = 0\<rparr>) of
             (fl, x', md') \<Rightarrow> (fl, VPtr t (Some x'))))"
    using assms by (auto simp: visit_def ptrSet_def To_def Let_def)
  from vis step skip show ?thesis by blast
qed


theorem visit_protocol_witness:
  "cycle (From (Some (0::nat)) [])
   \<and> Kind (goSource (newCycle 100 200 300 400 500 VInvalid)) (Some (0::nat)) = Inr KPtr
   \<and> visit (goSource (newCycle 100 200 300 400 500 VInvalid)) (From (Some (0::nat)) []) (Some (0::nat))
        (Some \<lparr>visited = {9}, cur = 0\<rparr>)
      = (Inr False, Some \<lparr>visited = {100, 9}, cur = 100\<rparr>)
   \<and> visit (goSource (newCycle 100 200 300 400 500 VInvalid)) (From (Some (0::nat)) []) (Some (0::nat))
        (Some \<lparr>visited = {100, 9}, cur = 0\<rparr>)
      = (Inr True, Some \<lparr>visited = {100, 9}, cur = 100\<rparr>)
   \<and> visit (goSource (newCycle 100 200 300 400 500 VInvalid)) (From (Some (0::nat)) []) (Some (0::nat))
        (Some \<lparr>visited = {100, 9}, cur = 100\<rparr>)
      = (Inr False, Some \<lparr>visited = {100, 9}, cur = 100\<rparr>)
   \<and> CanSet \<lparr>goval = VPtr (TNamed ''Cycle'') None, flagCanSet = True\<rparr>
   \<and> Skip (goSource (newCycle 100 200 300 400 500 VInvalid)) (Some (0::nat)) = Inr False
   \<and> assign (Suc 0) (exampleReflect cycleDecls) (goSource (newCycle 100 200 300 400 500 VInvalid))
        (From (Some (0::nat)) []) \<lparr>goval = VPtr (TNamed ''Cycle'') None, flagCanSet = True\<rparr> (Some (0::nat))
        (Some \<lparr>visited = {100, 9}, cur = 0\<rparr>)
      = (Return (Some (ErrorCycle (TPtr (TNamed ''Cycle'')) KPtr)), VPtr (TNamed ''Cycle'') None,
         Some \<lparr>visited = {100, 9}, cur = 100\<rparr>)
   \<and> assign (Suc 0) (exampleReflect cycleDecls) (goSource (newCycle 100 200 300 400 500 VInvalid))
        (From (Some (0::nat)) []) \<lparr>goval = VPtr (TNamed ''Cycle'') None, flagCanSet = False\<rparr> (Some (0::nat))
        (Some \<lparr>visited = {100, 9}, cur = 0\<rparr>)
      = (Return None, VPtr (TNamed ''Cycle'') None, Some \<lparr>visited = {100, 9}, cur = 0\<rparr>)"
proof -
  let ?S = "goSource (newCycle 100 200 300 400 500 VInvalid)"
  let ?a = "From (Some (0::nat)) []"
  have c: "cycle ?a"
    by (simp add: From_def)
  have k: "Kind ?S (Some (0::nat)) = Inr KPtr"
    by (simp add: goSource_def rv_Kind_def at_def newCycle_def)
  have t: "Pointer ?S (Some 0) = Inr 100"
    by (simp add: goSource_def rv_Pointer_def at_def newCycle_def)
  have s: "Skip ?S (Some 0) = Inr False"
    by (simp add: goSource_def rv_IsValid_def rv_IsZero_def rv_Kind_def at_def newCycle_def)
  note v = visit_protocol [OF c k]
  from v [of "\<lparr>visited = {9}, cur = 0\<rparr>"] v [of "\<lparr>visited = {100, 9}, cur = 0\<rparr>"]
    v [of "\<lparr>visited = {100, 9}, cur = 100\<rparr>"] t c k s
  show ?thesis by (simp add: CanSet_def del: assign.simps)
qed

text \<open>
  \<open>visit\<close> is not called at every step. The step for the zero \<open>int\<close> of
  \<open>D{A: p, B: 0, C: p}\<close> with \<open>p = &T{}\<close> is skipped and leaves the current token at
  \<open>p\<close>, where \<open>visit\<close> would have set it to zero. So the walk returns nil, while for
  \<open>B: 1\<close> it returns \<open>ErrorCycle\<close> at the field \<open>C\<close>.
\<close>

theorem visit_skipped_step:
  "assign (Suc 0) (exampleReflect cycleDecls) (goSource (sharedHeap 5 0 0)) (From (Some 0) [])
       \<lparr>goval = VInt KInt 0, flagCanSet = True\<rparr> (Some 3) (Some \<lparr>visited = {9, 5}, cur = 5\<rparr>)
     = (Return None, VInt KInt 0, Some \<lparr>visited = {9, 5}, cur = 5\<rparr>)
   \<and> visit (goSource (sharedHeap 5 0 0)) (From (Some 0) []) (Some 3) (Some \<lparr>visited = {9, 5}, cur = 5\<rparr>)
     = (Inr False, Some \<lparr>visited = {9, 5}, cur = 0\<rparr>)
   \<and> fst (To 6 (exampleReflect cycleDecls) (goSource (sharedHeap 5 0 0)) (From (Some 0) [])
            (VPtr tD (Some (zero tD))) 9) = Return None
   \<and> fst (To 6 (exampleReflect cycleDecls) (goSource (sharedHeap 5 0 1)) (From (Some 0) [])
            (VPtr tD (Some (zero tD))) 9) = Return (Some (ErrorCycle (TPtr tT) KPtr))"
  by code_simp

section \<open>Loops\<close>

text \<open>What holds of the state before a loop and is kept by each pass holds after it.\<close>

lemma forEach_invariant:
  assumes "I s"
    and "\<And>i t. i \<in> set js \<Longrightarrow> I t \<Longrightarrow> I (snd (body i t))"
  shows "I (snd (forEach body js s))"
  using assms
proof (induction js arbitrary: s)
  case Nil
  then show ?case by simp
next
  case (Cons i js)
  have step: "I (snd (body i s))"
    using Cons.prems by simp
  show ?case
  proof (cases "body i s")
    case (Pair fl s')
    with step have s': "I s'" by simp
    show ?thesis
    proof (cases "fl = Return None")
      case True
      with Pair Cons.IH [OF s'] Cons.prems(2) show ?thesis by simp
    next
      case False
      with Pair s' show ?thesis
        by (cases fl) (auto split: option.splits)
    qed
  qed
qed

text \<open>A loop over a list with one more pass.\<close>

lemma forEach_append:
  "forEach body (js @ ks) s =
     (case forEach body js s of (Return None, s') \<Rightarrow> forEach body ks s' | r \<Rightarrow> r)"
proof (induction js arbitrary: s)
  case Nil
  then show ?case by simp
next
  case (Cons j js)
  show ?case
  proof (cases "body j s")
    case (Pair fl s')
    with Cons show ?thesis
      by (cases fl) (auto split: option.splits)
  qed
qed

lemma forEach_single: "forEach body [j] s = body j s"
proof (cases "body j s")
  case (Pair fl s')
  then show ?thesis
    by (cases fl) (auto split: option.splits)
qed

lemma forEach_snoc:
  "forEach body (js @ [j]) s = (Return None, s'') \<longleftrightarrow>
     (\<exists>s'. forEach body js s = (Return None, s') \<and> body j s' = (Return None, s''))"
proof (cases "forEach body js s")
  case (Pair fl s')
  then show ?thesis
    by (cases fl) (auto simp: forEach_append forEach_single simp del: forEach.simps split: option.splits)
qed

lemma assign_unsettable:
  "\<not> CanSet dv \<Longrightarrow> fst (snd (assign k R S a dv sv md)) = goval dv"
  by (cases k) (simp_all add: assign_step_def)

lemma assignStruct_unexported:
  assumes "goval ds = VStruct fs" and "j < length fs" and "PkgPath (fst (fs ! j)) \<noteq> []"
  shows "\<exists>fs'. fst (snd (assignStruct (assign k R S a) S a ds ss md)) = VStruct fs'
           \<and> length fs' = length fs \<and> fs' ! j = fs ! j"
proof -
  let ?I = "\<lambda>s. \<exists>fs'. fst s = VStruct fs' \<and> length fs' = length fs \<and> fs' ! j = fs ! j"
  let ?body = "(\<lambda>i (d, m).
                        case d of
                          VStruct fs \<Rightarrow>
                            (let f = fst (fs ! i);
                                 df = \<lparr>goval = snd (fs ! i),
                                       flagCanSet = (flagCanSet ds \<and> PkgPath f = [])\<rparr>;
                                 dn = nameOf a f
                             in case FieldByName S ss dn of
                                  Inl p \<Rightarrow> (Panic p, d, m)
                                | Inr sf \<Rightarrow>
                                   (case assign k R S a df sf m of
                                      (fl, fv, m') \<Rightarrow> (fl, VStruct (fs[i := (f, fv)]), m')))
                        | _ \<Rightarrow> (Panic ''reflect: call of reflect.Value.Field on a Value that is no struct'', d, m))"
  have step: "?I (snd (?body i t))" if "?I t" for i t
  proof -
    obtain d m where t: "t = (d, m)" by (cases t)
    from that t obtain fs' where d: "d = VStruct fs'" and l: "length fs' = length fs"
      and e: "fs' ! j = fs ! j" by auto
    show ?thesis
    proof (cases "FieldByName S ss (nameOf a (fst (fs' ! i)))")
      case (Inl p)
      with t d l e show ?thesis by (simp add: Let_def)
    next
      case (Inr sf)
      obtain fl fv m' where r: "assign k R S a \<lparr>goval = snd (fs' ! i),
          flagCanSet = (flagCanSet ds \<and> PkgPath (fst (fs' ! i)) = [])\<rparr> sf m = (fl, fv, m')"
        by (metis prod_cases3)
      have "fv = snd (fs' ! i)" if "i = j"
        using assign_unsettable [of "\<lparr>goval = snd (fs' ! i),
          flagCanSet = (flagCanSet ds \<and> PkgPath (fst (fs' ! i)) = [])\<rparr>" k R S a sf m] r that e assms(3)
        by (simp add: CanSet_def)
      with t d l e Inr r assms(2) show ?thesis
        by (cases "i = j") (simp_all add: Let_def)
    qed
  qed
  have "?I (snd (forEach ?body [0..<length fs] (goval ds, md)))"
    by (rule forEach_invariant) (use assms step in auto)
  with assms show ?thesis
    unfolding assignStruct_def
    by (auto split: sum.splits)
qed

text \<open>
  C4. A step of \<open>assign\<close>, with any number of stack frames left, whose slot is not
  settable or whose source reports \<open>Skip\<close> returns nil and leaves the slot's value and
  the metadata as they were. For the source of Go values that is every source value that
  is invalid or zero. A struct field that is not exported is not settable: the loop of
  \<open>assignStruct\<close> leaves it as it was, whatever the source holds and however the loop
  ends.
\<close>

theorem skip_is_noop:
  "(\<not> CanSet dv \<or> Skip S sv = Inr True \<longrightarrow>
      assign (Suc k) R S a dv sv md = (Return None, goval dv, md))
   \<and> (\<not> rv_IsValid h v \<or> rv_IsZero h v = Inr True \<longrightarrow>
      assign (Suc k) R (goSource h) a dv v md = (Return None, goval dv, md))
   \<and> (goval ds = VStruct fs \<and> j < length fs \<and> PkgPath (fst (fs ! j)) \<noteq> [] \<longrightarrow>
        (\<exists>fs'. fst (snd (assignStruct (assign k R S a) S a ds ss md)) = VStruct fs'
           \<and> length fs' = length fs \<and> fs' ! j = fs ! j))"
proof -
  have 1: "\<not> CanSet dv \<or> Skip S sv = Inr True \<longrightarrow>
      assign (Suc k) R S a dv sv md = (Return None, goval dv, md)"
    by (auto simp: assign_step_def)
  have 2: "\<not> rv_IsValid h v \<or> rv_IsZero h v = Inr True \<longrightarrow>
      assign (Suc k) R (goSource h) a dv v md = (Return None, goval dv, md)"
    by (auto simp: assign_step_def goSource_def)
  have 3: "goval ds = VStruct fs \<and> j < length fs \<and> PkgPath (fst (fs ! j)) \<noteq> [] \<longrightarrow>
        (\<exists>fs'. fst (snd (assignStruct (assign k R S a) S a ds ss md)) = VStruct fs'
           \<and> length fs' = length fs \<and> fs' ! j = fs ! j)"
    using assignStruct_unexported [of ds fs j k R S a ss md] by blast
  from 1 2 3 show ?thesis by blast
qed

theorem skip_is_noop_witness:
  "Skip (goSource fieldsHeap) (Some 3) = Inr True
   \<and> assign (Suc 0) (exampleReflect cycleDecls) (goSource fieldsHeap) (From (Some 0) [])
        \<lparr>goval = VInt KInt 5, flagCanSet = True\<rparr> (Some 3) None = (Return None, VInt KInt 5, None)
   \<and> \<not> rv_IsValid fieldsHeap None
   \<and> assign (Suc 0) (exampleReflect cycleDecls) (goSource fieldsHeap) (From (Some 0) [])
        \<lparr>goval = VString ''x'', flagCanSet = True\<rparr> None None = (Return None, VString ''x'', None)
   \<and> PkgPath (StructField ''notExported'' ''assign'' (TBasic KInt) []) \<noteq> []
   \<and> fst (snd (assignStruct (assign (Suc 0) (exampleReflect cycleDecls) (goSource fieldsHeap) (From (Some 0) []))
        (goSource fieldsHeap) (From (Some 0) [])
        \<lparr>goval = VStruct [(StructField ''Exported'' [] (TBasic KString) [], VString []),
                           (StructField ''notExported'' ''assign'' (TBasic KInt) [], VInt KInt 5)],
          flagCanSet = True\<rparr> (Some 0) (Some \<lparr>visited = {9}, cur = 0\<rparr>)))
     = VStruct [(StructField ''Exported'' [] (TBasic KString) [], VString ''0''),
                (StructField ''notExported'' ''assign'' (TBasic KInt) [], VInt KInt 5)]"
proof -
  let ?S = "goSource fieldsHeap"
  let ?R = "exampleReflect cycleDecls"
  let ?a = "From (Some (0::nat)) []"
  let ?fs = "[(StructField ''Exported'' [] (TBasic KString) [], VString []),
              (StructField ''notExported'' ''assign'' (TBasic KInt) [], VInt KInt 5)]"
  have s: "Skip ?S (Some 3) = Inr True"
    by code_simp
  have i: "\<not> rv_IsValid fieldsHeap None"
    by code_simp
  have e: "fst (snd (assignStruct (assign (Suc 0) ?R ?S ?a) ?S ?a
        \<lparr>goval = VStruct ?fs, flagCanSet = True\<rparr> (Some 0) (Some \<lparr>visited = {9}, cur = 0\<rparr>)))
     = VStruct [(StructField ''Exported'' [] (TBasic KString) [], VString ''0''),
                (StructField ''notExported'' ''assign'' (TBasic KInt) [], VInt KInt 5)]"
    by code_simp
  from skip_is_noop [where dv = "\<lparr>goval = VInt KInt 5, flagCanSet = True\<rparr>" and S = ?S
        and sv = "Some 3" and k = 0 and R = ?R and a = ?a and md = None]
    skip_is_noop [where dv = "\<lparr>goval = VString ''x'', flagCanSet = True\<rparr>" and h = fieldsHeap
        and v = None and k = 0 and R = ?R and a = ?a and md = None]
    skip_is_noop [where ds = "\<lparr>goval = VStruct ?fs, flagCanSet = True\<rparr>" and fs = ?fs and j = 1
        and k = "Suc 0" and R = ?R and S = ?S and a = ?a and ss = "Some 0"
        and md = "Some \<lparr>visited = {9}, cur = 0\<rparr>"]
    s i e
  show ?thesis by (simp del: assign.simps)
qed

section \<open>The boundary of assignRecover\<close>

lemma forEach_noEP:
  assumes "\<And>i s r. fst (body i s) \<noteq> Return (Some (ErrorPanic r))"
  shows "fst (forEach body js s) \<noteq> Return (Some (ErrorPanic r))"
proof (induction js arbitrary: s)
  case Nil
  then show ?case by simp
next
  case (Cons i js)
  show ?case
  proof (cases "body i s")
    case (Pair fl s')
    with Cons assms [of i s r] show ?thesis
      by (cases fl) (auto split: option.splits)
  qed
qed

lemma noEP_neq [simp]:
  "noErrorPanic rec \<Longrightarrow> rec dv sv md \<noteq> (Return (Some (ErrorPanic r)), x, m)"
  by (auto simp: noErrorPanic_def dest: arg_cong [where f = fst])

lemma noEP_fst [simp]:
  "noErrorPanic rec \<Longrightarrow> fst (rec dv sv md) \<noteq> Return (Some (ErrorPanic r))"
  by (auto simp: noErrorPanic_def)

lemma assignPointer_noEP:
  "noErrorPanic rec \<Longrightarrow> fst (assignPointer rec R dp sp md) \<noteq> Return (Some (ErrorPanic r))"
  by (auto simp: assignPointer_def Let_def split: gval.splits prod.splits)

lemma assignBasic_noEP:
  "fst (assignBasic R S db sb) \<noteq> Return (Some (ErrorPanic r))"
  by (auto simp: assignBasic_def newError_def split: sum.splits)

lemma assignStruct_noEP:
  assumes "noErrorPanic rec"
  shows "fst (assignStruct rec S a ds ss md) \<noteq> Return (Some (ErrorPanic r))"
proof -
  have body: "fst (forEach
     (\<lambda>i (d, m).
        case d of
          VStruct fs \<Rightarrow>
            (let f = fst (fs ! i);
                 df = \<lparr>goval = snd (fs ! i), flagCanSet = (flagCanSet ds \<and> PkgPath f = [])\<rparr>;
                 dn = nameOf a f
             in case FieldByName S ss dn of
                  Inl p \<Rightarrow> (Panic p, d, m)
                | Inr sf \<Rightarrow>
                   (case rec df sf m of
                      (fl, fv, m') \<Rightarrow> (fl, VStruct (fs[i := (f, fv)]), m')))
        | _ \<Rightarrow> (Panic ''reflect: call of reflect.Value.Field on a Value that is no struct'', d, m))
     js s) \<noteq> Return (Some (ErrorPanic r))" for js s
    by (rule forEach_noEP) (use assms in \<open>auto simp: Let_def split: gval.splits sum.splits prod.splits\<close>)
  show ?thesis
    unfolding assignStruct_def
    by (simp add: newError_def body split: sum.splits gval.splits)
qed

lemma assignMap_noEP:
  assumes "noErrorPanic rec"
  shows "fst (assignMap rec R S dm sm md) \<noteq> Return (Some (ErrorPanic r))"
proof -
  have body: "fst (forEach
     (\<lambda>(sk, sv) (d, m).
        case rec \<lparr>goval = zero (resolve (named R) kt), flagCanSet = True\<rparr> sk m of
          (Return None, dk, m1) \<Rightarrow>
            (case rec \<lparr>goval = zero (resolve (named R) vt), flagCanSet = True\<rparr> sv m1 of
               (Return None, dv, m2) \<Rightarrow>
                 (case d of
                    VMap kt' vt' (Some es) \<Rightarrow>
                      if hashable dk
                      then (Return None, VMap kt' vt' (Some (SetMapIndex es dk dv)), m2)
                      else (Panic ''runtime error: hash of unhashable type'', d, m2)
                  | _ \<Rightarrow> (Panic ''assignment to entry in nil map'', d, m2))
             | (fl, dv, m2) \<Rightarrow> (fl, d, m2))
        | (fl, dk, m1) \<Rightarrow> (fl, d, m1))
     js s) \<noteq> Return (Some (ErrorPanic r))" for js s kt vt
    by (rule forEach_noEP)
      (use assms in \<open>auto split: gval.splits sum.splits prod.splits flow.splits option.splits\<close>)
  show ?thesis
    unfolding assignMap_def
    by (simp add: newError_def body Let_def split: sum.splits gval.splits option.splits)
qed

lemma assignList_noEP:
  assumes "noErrorPanic rec"
  shows "fst (assignList rec S dl sl md) \<noteq> Return (Some (ErrorPanic r))"
  unfolding assignList_def
  by (auto simp: Let_def split: sum.splits intro!: forEach_noEP)
    (use assms in \<open>auto split: sum.splits prod.splits\<close>)

lemma assignSlice_noEP:
  "noErrorPanic rec \<Longrightarrow> fst (assignSlice rec R S ds ss md) \<noteq> Return (Some (ErrorPanic r))"
  unfolding assignSlice_def
  by (simp add: newError_def assignList_noEP split: sum.splits gval.splits option.splits)

lemma assignArray_noEP:
  "noErrorPanic rec \<Longrightarrow> fst (assignArray rec S da sa md) \<noteq> Return (Some (ErrorPanic r))"
  unfolding assignArray_def
  by (simp add: newError_def assignList_noEP split: sum.splits)

lemma assignBasic_noEP_neq:
  "assignBasic R S db sb \<noteq> (Return (Some (ErrorPanic r)), x)"
  using assignBasic_noEP [of R S db sb r] by auto

lemma assign_step_noEP:
  assumes "noErrorPanic rec"
  shows "noErrorPanic (assign_step rec R S a)"
proof -
  have "fst (assign_step rec R S a dv sv md) \<noteq> Return (Some (ErrorPanic r))" for dv sv md r
  proof (cases "assignBasic R S dv sv")
    case (Pair fl x)
    then have "fl \<noteq> Return (Some (ErrorPanic r))"
      using assignBasic_noEP_neq [of R S dv sv r x] by auto
    with Pair assms show ?thesis
      unfolding assign_step_def
      by (simp add: Let_def assignPointer_noEP assignStruct_noEP assignMap_noEP
            assignSlice_noEP assignArray_noEP split: sum.splits prod.splits)
  qed
  then show ?thesis
    by (simp add: noErrorPanic_def)
qed

lemma assign_noEP: "noErrorPanic (assign k R S a)"
  by (induction k) (auto simp: assign_step_noEP, simp add: noErrorPanic_def)

text \<open>
  C8. \<open>To\<close> on a root pointer that is not nil returns what the walk returns, but for a
  panic of the walk, which it returns as \<open>ErrorPanic\<close> with the panic's payload. So no
  panic of the walk leaves \<open>To\<close> or \<open>ToFrom\<close>. No step of the walk returns
  \<open>ErrorPanic\<close>: a panic unwinds every step up to the one \<open>recover\<close> of
  \<open>assignRecover\<close>, so \<open>To\<close> returns \<open>ErrorPanic\<close> with \<open>r\<close> exactly when the walk
  panicked with \<open>r\<close>.
\<close>

theorem recover_boundary:
  "fst (To k R S a (VPtr t (Some x)) p)
     = (case fst (assign k R S a \<lparr>goval = x, flagCanSet = True\<rparr> (src a)
                    (if cycle a then Some \<lparr>visited = {p}, cur = 0\<rparr> else None)) of
          Panic r \<Rightarrow> Return (Some (ErrorPanic r))
        | fl \<Rightarrow> fl)
   \<and> fst (To k R S a (VPtr t (Some x)) p) \<noteq> Panic r
   \<and> fst (ToFrom k R S (VPtr t (Some x)) p s options) \<noteq> Panic r
   \<and> fst (assign k R S a dv sv md) \<noteq> Return (Some (ErrorPanic r))
   \<and> (fst (To k R S a (VPtr t (Some x)) p) = Return (Some (ErrorPanic r)))
      = (fst (assign k R S a \<lparr>goval = x, flagCanSet = True\<rparr> (src a)
                (if cycle a then Some \<lparr>visited = {p}, cur = 0\<rparr> else None)) = Panic r)"
proof -
  have to: "fst (To k R S a (VPtr t (Some x)) p)
     = (case fst (assign k R S a \<lparr>goval = x, flagCanSet = True\<rparr> (src a)
                    (if cycle a then Some \<lparr>visited = {p}, cur = 0\<rparr> else None)) of
          Panic r \<Rightarrow> Return (Some (ErrorPanic r))
        | fl \<Rightarrow> fl)" for a :: "'a Assigner"
    by (simp add: To_def assignRecover_def Let_def split: prod.splits flow.splits)
  have ne: "fst (assign k R S a dv sv md) \<noteq> Return (Some (ErrorPanic r))"
      for a :: "'a Assigner" and dv sv md r
    using assign_noEP [of k R S a] by (simp add: noErrorPanic_def)
  have np: "fst (To k R S a (VPtr t (Some x)) p) \<noteq> Panic r" for a :: "'a Assigner"
    unfolding to by (simp split: flow.splits)
  have iff: "(fst (To k R S a (VPtr t (Some x)) p) = Return (Some (ErrorPanic r)))
      = (fst (assign k R S a \<lparr>goval = x, flagCanSet = True\<rparr> (src a)
                (if cycle a then Some \<lparr>visited = {p}, cur = 0\<rparr> else None)) = Panic r)"
    unfolding to using ne [of a "\<lparr>goval = x, flagCanSet = True\<rparr>" "src a"
        "if cycle a then Some \<lparr>visited = {p}, cur = 0\<rparr> else None" r]
    by (auto split: flow.splits)
  from to [of a] ne [of a dv sv md r] np [of a] np [of "From s options"] iff
  show ?thesis by (simp add: ToFrom_def)
qed

theorem recover_boundary_witness:
  "fst (assign (Suc 0) (exampleReflect cycleDecls)
          (panicker (goSource (newCycle 100 200 300 400 500 VInvalid)))
          (From (Panicker (Some 0)) [])
          \<lparr>goval = VPtr (TNamed ''Cycle'') None, flagCanSet = True\<rparr> (Panicker (Some 0))
          (Some \<lparr>visited = {9}, cur = 0\<rparr>)) = Panic ''panicker''
   \<and> fst (To (Suc 0) (exampleReflect cycleDecls)
          (panicker (goSource (newCycle 100 200 300 400 500 VInvalid)))
          (From (Panicker (Some 0)) [])
          (VPtr (TPtr (TNamed ''Cycle'')) (Some (VPtr (TNamed ''Cycle'') None))) 9)
       = Return (Some (ErrorPanic ''panicker''))"
proof -
  let ?S = "panicker (goSource (newCycle 100 200 300 400 500 VInvalid))"
  let ?a = "From (Panicker (Some (0::nat))) []"
  have c: "cycle ?a" "src ?a = Panicker (Some 0)"
    by (simp_all add: From_def Of_def)
  have p: "fst (assign (Suc 0) (exampleReflect cycleDecls) ?S ?a
          \<lparr>goval = VPtr (TNamed ''Cycle'') None, flagCanSet = True\<rparr> (Panicker (Some 0))
          (Some \<lparr>visited = {9}, cur = 0\<rparr>)) = Panic ''panicker''"
    by code_simp
  from recover_boundary [of "Suc 0" "exampleReflect cycleDecls" ?S ?a "TPtr (TNamed ''Cycle'')"
      "VPtr (TNamed ''Cycle'') None" 9 "''panicker''"] c p
  show ?thesis by simp
qed

section \<open>The destination root\<close>

text \<open>
  C3. \<open>To(nil)\<close> and \<open>ToFrom(nil, src)\<close>: \<open>valueOf(nil)\<close> is the zero Value, whose kind
  \<open>Invalid\<close> is not \<open>Ptr\<close>, and \<open>dv.Type()\<close> panics on it, outside \<open>assignRecover\<close>.
  The call panics and returns no error.
\<close>

theorem To_untyped_nil:
  "To k R S a VInvalid p = (Panic ''reflect: call of reflect.Value.Type on zero Value'', VInvalid)
   \<and> ToFrom k R S VInvalid p s options
       = (Panic ''reflect: call of reflect.Value.Type on zero Value'', VInvalid)"
  by (simp add: To_def ToFrom_def)

section \<open>The visited set\<close>

lemma keepsD: "keeps rec \<Longrightarrow> above m0 md \<Longrightarrow> rec dv sv md = (fl, x, md') \<Longrightarrow> above m0 md'"
  unfolding keeps_def by (metis snd_conv)

lemma visit_above:
  "above m0 md \<Longrightarrow> above m0 (snd (visit S a v md))"
  by (auto simp: visit_def above_def Let_def split: sum.splits option.splits)

lemma assignPointer_keeps:
  "keeps rec \<Longrightarrow> above m0 md \<Longrightarrow> above m0 (snd (snd (assignPointer rec R dp sp md)))"
  by (auto simp: assignPointer_def Let_def split: gval.splits prod.splits dest: keepsD)

lemma assignStruct_keeps:
  assumes "keeps rec" and "above m0 md"
  shows "above m0 (snd (snd (assignStruct rec S a ds ss md)))"
proof -
  have loop: "above m0 (snd (snd (forEach
     (\<lambda>i (d, m).
        case d of
          VStruct fs \<Rightarrow>
            (let f = fst (fs ! i);
                 df = \<lparr>goval = snd (fs ! i), flagCanSet = (flagCanSet ds \<and> PkgPath f = [])\<rparr>;
                 dn = nameOf a f
             in case FieldByName S ss dn of
                  Inl p \<Rightarrow> (Panic p, d, m)
                | Inr sf \<Rightarrow>
                   (case rec df sf m of
                      (fl, fv, m') \<Rightarrow> (fl, VStruct (fs[i := (f, fv)]), m')))
        | _ \<Rightarrow> (Panic ''reflect: call of reflect.Value.Field on a Value that is no struct'', d, m))
     js (d0, md))))" for js d0
    by (rule forEach_invariant [where I = "\<lambda>s. above m0 (snd s)"])
      (use assms in \<open>auto simp: Let_def split: gval.splits sum.splits prod.splits dest: keepsD\<close>)
  show ?thesis
    unfolding assignStruct_def
    using assms(2) by (simp add: loop split: sum.splits gval.splits)
qed

lemma assignMap_keeps:
  assumes "keeps rec" and "above m0 md"
  shows "above m0 (snd (snd (assignMap rec R S dm sm md)))"
proof -
  have loop: "above m0 (snd (snd (forEach
     (\<lambda>(sk, sv) (d, m).
        case rec \<lparr>goval = zero (resolve (named R) kt), flagCanSet = True\<rparr> sk m of
          (Return None, dk, m1) \<Rightarrow>
            (case rec \<lparr>goval = zero (resolve (named R) vt), flagCanSet = True\<rparr> sv m1 of
               (Return None, dv, m2) \<Rightarrow>
                 (case d of
                    VMap kt' vt' (Some es) \<Rightarrow>
                      if hashable dk
                      then (Return None, VMap kt' vt' (Some (SetMapIndex es dk dv)), m2)
                      else (Panic ''runtime error: hash of unhashable type'', d, m2)
                  | _ \<Rightarrow> (Panic ''assignment to entry in nil map'', d, m2))
             | (fl, dv, m2) \<Rightarrow> (fl, d, m2))
        | (fl, dk, m1) \<Rightarrow> (fl, d, m1))
     js (d0, md))))" for js d0 kt vt
  proof (rule forEach_invariant [where I = "\<lambda>s. above m0 (snd s)"])
    show "above m0 (snd (d0, md))" using assms(2) by simp
  next
    fix i :: "'a \<times> 'a" and t :: "gval \<times> metadata option"
    assume t: "above m0 (snd t)"
    obtain sk sv where i: "i = (sk, sv)" by (cases i)
    obtain d m where tt: "t = (d, m)" by (cases t)
    obtain fl1 dk m1 where r1: "rec \<lparr>goval = zero (resolve (named R) kt), flagCanSet = True\<rparr> sk m = (fl1, dk, m1)"
      by (metis prod_cases3)
    from keepsD [OF assms(1) _ r1] t tt have a1: "above m0 m1" by simp
    obtain fl2 dv m2 where r2: "rec \<lparr>goval = zero (resolve (named R) vt), flagCanSet = True\<rparr> sv m1 = (fl2, dv, m2)"
      by (metis prod_cases3)
    from keepsD [OF assms(1) a1 r2] have a2: "above m0 m2" .
    show "above m0 (snd (snd ((case i of (sk, sv) \<Rightarrow> \<lambda>(d, m).
        case rec \<lparr>goval = zero (resolve (named R) kt), flagCanSet = True\<rparr> sk m of
          (Return None, dk, m1) \<Rightarrow>
            (case rec \<lparr>goval = zero (resolve (named R) vt), flagCanSet = True\<rparr> sv m1 of
               (Return None, dv, m2) \<Rightarrow>
                 (case d of
                    VMap kt' vt' (Some es) \<Rightarrow>
                      if hashable dk
                      then (Return None, VMap kt' vt' (Some (SetMapIndex es dk dv)), m2)
                      else (Panic ''runtime error: hash of unhashable type'', d, m2)
                  | _ \<Rightarrow> (Panic ''assignment to entry in nil map'', d, m2))
             | (fl, dv, m2) \<Rightarrow> (fl, d, m2))
        | (fl, dk, m1) \<Rightarrow> (fl, d, m1)) t)))"
      using i tt r1 r2 a1 a2
      by (auto split: flow.splits option.splits gval.splits)
  qed
  show ?thesis
    unfolding assignMap_def
    using assms(2) by (simp add: loop Let_def split: sum.splits gval.splits option.splits)
qed

lemma assignList_keeps:
  assumes "keeps rec" and "above m0 md"
  shows "above m0 (snd (snd (assignList rec S dl sl md)))"
proof -
  have loop: "above m0 (snd (snd (forEach
                  (\<lambda>i (d, m).
                     case Index S sl (int i) of
                       Inl p \<Rightarrow> (Panic p, d, m)
                     | Inr se \<Rightarrow>
                        (case rec \<lparr>goval = elems d ! i, flagCanSet = flagCanSet dl\<rparr> se m of
                           (fl, e, m') \<Rightarrow> (fl, setElem d i e, m')))
                  js (d0, md))))" for js d0
    by (rule forEach_invariant [where I = "\<lambda>s. above m0 (snd s)"])
      (use assms in \<open>auto split: sum.splits prod.splits dest: keepsD\<close>)
  show ?thesis
    unfolding assignList_def
    using assms(2) by (simp add: loop Let_def split: sum.splits)
qed

lemma assignSlice_keeps:
  "keeps rec \<Longrightarrow> above m0 md \<Longrightarrow> above m0 (snd (snd (assignSlice rec R S ds ss md)))"
  unfolding assignSlice_def
  by (simp add: assignList_keeps split: sum.splits gval.splits option.splits)

lemma assignArray_keeps:
  "keeps rec \<Longrightarrow> above m0 md \<Longrightarrow> above m0 (snd (snd (assignArray rec S da sa md)))"
  unfolding assignArray_def
  by (simp add: assignList_keeps split: sum.splits)

lemma assign_step_keeps:
  assumes "keeps rec"
  shows "keeps (assign_step rec R S a)"
proof -
  have "above m0 (snd (snd (assign_step rec R S a dv sv md)))" if a: "above m0 md" for m0 md dv sv
  proof (cases "visit S a sv md")
    case (Pair r md1)
    with visit_above [OF a, of S a sv] have a1: "above m0 md1" by simp
    have e: "above m0 (snd (snd (rec dv e md1)))" for e
      using assms a1 by (simp add: keeps_def)
    show ?thesis
      unfolding assign_step_def
      using a a1 Pair assms
      by (simp add: Let_def e assignPointer_keeps assignStruct_keeps assignMap_keeps
            assignSlice_keeps assignArray_keeps split: sum.splits prod.splits)
  qed
  then show ?thesis
    by (simp add: keeps_def)
qed

lemma assign_keeps: "keeps (assign k R S a)"
  by (induction k) (simp_all add: assign_step_keeps, simp add: keeps_def)


lemma step_after_visit:
  assumes "CanSet dv" and "Skip S v = Inr False" and "Kind S v = Inr k"
  shows "assign (Suc n) R S a dv v md =
            (case visit S a v md of
               (Inl p, md1) \<Rightarrow> (Panic p, goval dv, md1)
             | (Inr found, md1) \<Rightarrow>
                 if found then
                   (case Value_Type (goval dv) of
                      Inl p \<Rightarrow> (Panic p, goval dv, md1)
                    | Inr dt \<Rightarrow> (Return (Some (ErrorCycle dt k)), goval dv, md1))
                 else assign_step (assign n R S a) R S (a\<lparr>cycle := False\<rparr>) dv v md1)"
proof -
  have v: "visit S (a\<lparr>cycle := False\<rparr>) v md1 = (Inr False, md1)" for md1
    by (simp add: visit_def)
  have t: "tags (a\<lparr>cycle := False\<rparr>) = tags a"
    by simp
  have s: "assignStruct rec S (a\<lparr>cycle := False\<rparr>) = assignStruct rec S a" for rec
    unfolding assignStruct_def nameOf_def fun_eq_iff t by (rule allI refl)+
  show ?thesis
    using assms
    by (simp add: assign_step_def v s Let_def split: prod.splits sum.splits)
qed

text \<open>
  C10. With cycle detection enabled the visited set only grows: whatever a step of the
  walk does and however it ends, every token that was in the set before is in it after.
  A step that visits a value with an identity token other than the current one leaves the
  token in the set; \<open>visit\<close> on a value without identity sets the current token to zero.
  So a later step that visits a value with a token that is in the set and is not the
  current one returns \<open>ErrorCycle\<close>, whether or not the source has a cycle: after a visit
  to a value without identity that is every token in the set but zero.
\<close>

theorem visited_grows:
  "(\<exists>m'. snd (snd (assign k R S a dv sv (Some m))) = Some m' \<and> visited m \<subseteq> visited m')
   \<and> (cycle a \<and> CanSet dv \<and> Skip S sv = Inr False \<and> Kind S sv = Inr kd
        \<and> kd \<in> {KPtr, KMap, KSlice, KChan, KFunc, KUnsafePointer}
        \<and> Pointer S sv = Inr t \<and> t \<noteq> cur m \<longrightarrow>
        (\<exists>m'. snd (snd (assign (Suc k) R S a dv sv (Some m))) = Some m' \<and> t \<in> visited m'))
   \<and> (cycle a \<and> Kind S sv = Inr kd
        \<and> kd \<notin> {KPtr, KMap, KSlice, KChan, KFunc, KUnsafePointer} \<longrightarrow>
        visit S a sv (Some m) = (Inr False, Some (m\<lparr>cur := 0\<rparr>)))
   \<and> (cycle a \<and> CanSet dv \<and> Skip S sv = Inr False \<and> Kind S sv = Inr kd
        \<and> kd \<in> {KPtr, KMap, KSlice, KChan, KFunc, KUnsafePointer}
        \<and> Pointer S sv = Inr t \<and> t \<in> visited m \<and> t \<noteq> cur m
        \<and> Value_Type (goval dv) = Inr dt \<longrightarrow>
        assign (Suc k) R S a dv sv (Some m)
          = (Return (Some (ErrorCycle dt kd)), goval dv, Some (m\<lparr>cur := t\<rparr>)))"
proof -
  have grow: "\<exists>m'. snd (snd (assign k R S a dv sv (Some m))) = Some m' \<and> visited m \<subseteq> visited m'"
    using assign_keeps [of k R S a] by (simp add: keeps_def above_def)
  have first: "\<exists>m'. snd (snd (assign (Suc k) R S a dv sv (Some m))) = Some m' \<and> t \<in> visited m'"
    if h: "cycle a" "CanSet dv" "Skip S sv = Inr False" "Kind S sv = Inr kd"
      "kd \<in> {KPtr, KMap, KSlice, KChan, KFunc, KUnsafePointer}" "Pointer S sv = Inr t" "t \<noteq> cur m"
  proof -
    let ?m1 = "m\<lparr>cur := t, visited := insert t (visited m)\<rparr>"
    have v: "visit S a sv (Some m) = (Inr (t \<in> visited m),
               Some (if t \<in> visited m then m\<lparr>cur := t\<rparr> else ?m1))"
      using h by (auto simp: visit_def ptrSet_def Let_def)
    show ?thesis
    proof (cases "t \<in> visited m")
      case True
      with v h show ?thesis
        by (simp add: step_after_visit [OF h(2) h(3) h(4)] del: assign.simps split: sum.splits)
    next
      case False
      have ks: "keeps (assign_step (assign k R S a) R S (a\<lparr>cycle := False\<rparr>))"
        by (rule assign_step_keeps [OF assign_keeps])
      have "above ?m1 (Some ?m1)"
        by (auto simp: above_def)
      with ks have "above ?m1 (snd (snd (assign_step (assign k R S a) R S (a\<lparr>cycle := False\<rparr>) dv sv (Some ?m1))))"
        unfolding keeps_def by blast
      with v False show ?thesis
        by (auto simp: step_after_visit [OF h(2) h(3) h(4)] above_def simp del: assign.simps)
    qed
  qed
  have reset: "visit S a sv (Some m) = (Inr False, Some (m\<lparr>cur := 0\<rparr>))"
    if "cycle a" "Kind S sv = Inr kd" "kd \<notin> {KPtr, KMap, KSlice, KChan, KFunc, KUnsafePointer}"
    using that by (auto simp: visit_def ptrSet_def)
  have second: "assign (Suc k) R S a dv sv (Some m)
          = (Return (Some (ErrorCycle dt kd)), goval dv, Some (m\<lparr>cur := t\<rparr>))"
    if h: "cycle a" "CanSet dv" "Skip S sv = Inr False" "Kind S sv = Inr kd"
      "kd \<in> {KPtr, KMap, KSlice, KChan, KFunc, KUnsafePointer}" "Pointer S sv = Inr t"
      "t \<in> visited m" "t \<noteq> cur m" "Value_Type (goval dv) = Inr dt"
  proof -
    have v: "visit S a sv (Some m) = (Inr True, Some (m\<lparr>cur := t\<rparr>))"
      using h by (auto simp: visit_def ptrSet_def Let_def)
    show ?thesis
      using h(9) by (simp add: step_after_visit [OF h(2) h(3) h(4)] v del: assign.simps)
  qed
  from grow first reset second show ?thesis by blast
qed

theorem visited_grows_witness:
  "cycle (From (Some (0::nat)) [])
   \<and> CanSet \<lparr>goval = VPtr tT None, flagCanSet = True\<rparr>
   \<and> Skip (goSource (sharedHeap 5 7 0)) (Some 1) = Inr False
   \<and> Kind (goSource (sharedHeap 5 7 0)) (Some 1) = Inr KPtr
   \<and> Pointer (goSource (sharedHeap 5 7 0)) (Some 1) = Inr 5
   \<and> Value_Type (VPtr tT None) = Inr (TPtr tT)
   \<and> assign (Suc 0) (exampleReflect cycleDecls) (goSource (sharedHeap 5 7 0)) (From (Some 0) [])
        \<lparr>goval = VPtr tT None, flagCanSet = True\<rparr> (Some 1) (Some \<lparr>visited = {5, 9}, cur = 0\<rparr>)
      = (Return (Some (ErrorCycle (TPtr tT) KPtr)), VPtr tT None, Some \<lparr>visited = {5, 9}, cur = 5\<rparr>)
   \<and> fst (To 6 (exampleReflect cycleDecls) (goSource (sharedHeap 5 7 0)) (From (Some 0) [])
            (VPtr tD (Some (zero tD))) 9) = Return (Some (ErrorCycle (TPtr tT) KPtr))
   \<and> fst (To 6 (exampleReflect cycleDecls) (goSource (sharedHeap 5 7 0)) (From (Some 0) [WithoutCycle])
            (VPtr tD (Some (zero tD))) 9) = Return None"
proof -
  let ?S = "goSource (sharedHeap 5 7 0)"
  let ?a = "From (Some (0::nat)) []"
  have c: "cycle ?a"
    by (simp add: From_def)
  have f: "CanSet \<lparr>goval = VPtr tT None, flagCanSet = True\<rparr>" "Skip ?S (Some 1) = Inr False"
    "Kind ?S (Some 1) = Inr KPtr" "Pointer ?S (Some 1) = Inr 5"
    "Value_Type (VPtr tT None) = Inr (TPtr tT)"
    by code_simp+
  have e: "fst (To 6 (exampleReflect cycleDecls) ?S ?a (VPtr tD (Some (zero tD))) 9)
             = Return (Some (ErrorCycle (TPtr tT) KPtr))"
    "fst (To 6 (exampleReflect cycleDecls) ?S (From (Some 0) [WithoutCycle])
            (VPtr tD (Some (zero tD))) 9) = Return None"
    by code_simp+
  from visited_grows [where a = ?a and dv = "\<lparr>goval = VPtr tT None, flagCanSet = True\<rparr>"
      and S = ?S and sv = "Some 1" and kd = KPtr and t = 5 and m = "\<lparr>visited = {5, 9}, cur = 0\<rparr>"
      and dt = "TPtr tT" and k = 0 and R = "exampleReflect cycleDecls"] c f e
  show ?thesis by (simp del: assign.simps)
qed

text \<open>
  A token equal to zero is never reported. For the Source that gives 0 as every address,
  \<open>D{A: p, B: 0, C: p}\<close> with \<open>p = &T{X: 7}\<close> is assigned to the end: at \<open>C\<close> the token
  is the current one, which the visit to \<open>X\<close> has set to zero.
\<close>

theorem zero_token_not_reported:
  "To 6 (exampleReflect cycleDecls) (noAddress (goSource (sharedHeap 5 7 0))) (From (Some 0) [])
      (VPtr tD (Some (zero tD))) 9
    = (Return None,
       VPtr tD (Some (VStruct
         [(fld ''A'' (TPtr tT), VPtr tT (Some (VStruct [(fld ''X'' (TBasic KInt), VInt KInt 7)]))),
          (fld ''B'' (TBasic KInt), VInt KInt 0),
          (fld ''C'' (TPtr tT), VPtr tT (Some (VStruct [(fld ''X'' (TBasic KInt), VInt KInt 7)])))])))"
  by code_simp

section \<open>Struct fields\<close>

lemma nameOf_tags_find:
  "nameOf_tags ts f =
     (case find (\<lambda>key. Tag_Get (Tag f) key \<noteq> []) ts of
        None \<Rightarrow> Name f
      | Some key \<Rightarrow> Tag_Get (Tag f) key)"
  by (induction ts) (auto simp: Let_def)

lemma WithTags_foldl:
  "tags (foldl (\<lambda>a option. option a) a0 (map WithTags tss)) = tags a0 @ concat tss"
  by (induction tss arbitrary: a0) (simp_all add: WithTags_def)

lemma struct_loop:
  assumes "forEach
     (\<lambda>i (d, m).
        case d of
          VStruct fs \<Rightarrow>
            (let f = fst (fs ! i);
                 df = \<lparr>goval = snd (fs ! i), flagCanSet = (flagCanSet ds \<and> PkgPath f = [])\<rparr>;
                 dn = nameOf a f
             in case FieldByName S ss dn of
                  Inl p \<Rightarrow> (Panic p, d, m)
                | Inr sf \<Rightarrow>
                   (case rec df sf m of
                      (fl, fv, m') \<Rightarrow> (fl, VStruct (fs[i := (f, fv)]), m')))
        | _ \<Rightarrow> (Panic ''reflect: call of reflect.Value.Field on a Value that is no struct'', d, m))
     [0..<n] (VStruct fs0, md) = (Return None, d', md')"
    and "n \<le> length fs0"
  shows "\<exists>fs'. d' = VStruct fs' \<and> map fst fs' = map fst fs0
           \<and> (\<forall>j<n. \<exists>sf m m'. FieldByName S ss (nameOf a (fst (fs0 ! j))) = Inr sf
                  \<and> rec \<lparr>goval = snd (fs0 ! j),
                          flagCanSet = (flagCanSet ds \<and> PkgPath (fst (fs0 ! j)) = [])\<rparr> sf m
                      = (Return None, snd (fs' ! j), m'))
           \<and> (\<forall>j. n \<le> j \<longrightarrow> j < length fs0 \<longrightarrow> fs' ! j = fs0 ! j)"
  using assms
proof (induction n arbitrary: d' md')
  case 0
  then show ?case by auto
next
  case (Suc n)
  let ?body = "(\<lambda>i (d, m).
        case d of
          VStruct fs \<Rightarrow>
            (let f = fst (fs ! i);
                 df = \<lparr>goval = snd (fs ! i), flagCanSet = (flagCanSet ds \<and> PkgPath f = [])\<rparr>;
                 dn = nameOf a f
             in case FieldByName S ss dn of
                  Inl p \<Rightarrow> (Panic p, d, m)
                | Inr sf \<Rightarrow>
                   (case rec df sf m of
                      (fl, fv, m') \<Rightarrow> (fl, VStruct (fs[i := (f, fv)]), m')))
        | _ \<Rightarrow> (Panic ''reflect: call of reflect.Value.Field on a Value that is no struct'', d, m))"
  from Suc.prems(1) obtain d1 m1 where
    pre: "forEach ?body [0..<n] (VStruct fs0, md) = (Return None, d1, m1)"
    and last: "?body n (d1, m1) = (Return None, d', md')"
    by (auto simp: forEach_snoc)
  from Suc.IH [OF pre] Suc.prems(2) obtain fs1 where
    d1: "d1 = VStruct fs1" and ty: "map fst fs1 = map fst fs0"
    and prev: "\<forall>j<n. \<exists>sf m m'. FieldByName S ss (nameOf a (fst (fs0 ! j))) = Inr sf
                  \<and> rec \<lparr>goval = snd (fs0 ! j),
                          flagCanSet = (flagCanSet ds \<and> PkgPath (fst (fs0 ! j)) = [])\<rparr> sf m
                      = (Return None, snd (fs1 ! j), m')"
    and rest: "\<forall>j. n \<le> j \<longrightarrow> j < length fs0 \<longrightarrow> fs1 ! j = fs0 ! j"
    by auto
  from ty have len: "length fs1 = length fs0"
    by (metis length_map)
  from rest Suc.prems(2) have n: "fs1 ! n = fs0 ! n" by simp
  from last d1 n obtain sf fv where
    sf: "FieldByName S ss (nameOf a (fst (fs0 ! n))) = Inr sf"
    and r: "rec \<lparr>goval = snd (fs0 ! n),
                 flagCanSet = (flagCanSet ds \<and> PkgPath (fst (fs0 ! n)) = [])\<rparr> sf m1
              = (Return None, fv, md')"
    and d': "d' = VStruct (fs1[n := (fst (fs0 ! n), fv)])"
    by (auto simp: Let_def split: sum.splits prod.splits)
  have "map fst (fs1[n := (fst (fs0 ! n), fv)]) = map fst fs0"
    using ty n len Suc.prems(2)
    by (simp add: list_eq_iff_nth_eq nth_list_update)
  moreover have "\<forall>j<Suc n. \<exists>sf m m'. FieldByName S ss (nameOf a (fst (fs0 ! j))) = Inr sf
                  \<and> rec \<lparr>goval = snd (fs0 ! j),
                          flagCanSet = (flagCanSet ds \<and> PkgPath (fst (fs0 ! j)) = [])\<rparr> sf m
                      = (Return None, snd (fs1[n := (fst (fs0 ! n), fv)] ! j), m')"
  proof (intro allI impI)
    fix j assume "j < Suc n"
    show "\<exists>sf m m'. FieldByName S ss (nameOf a (fst (fs0 ! j))) = Inr sf
                  \<and> rec \<lparr>goval = snd (fs0 ! j),
                          flagCanSet = (flagCanSet ds \<and> PkgPath (fst (fs0 ! j)) = [])\<rparr> sf m
                      = (Return None, snd (fs1[n := (fst (fs0 ! n), fv)] ! j), m')"
    proof (cases "j = n")
      case True
      with sf r len Suc.prems(2) show ?thesis by auto
    next
      case False
      with \<open>j < Suc n\<close> have "j < n" by simp
      with prev False show ?thesis by simp
    qed
  qed
  moreover have "\<forall>j. Suc n \<le> j \<longrightarrow> j < length fs0 \<longrightarrow> fs1[n := (fst (fs0 ! n), fv)] ! j = fs0 ! j"
    using rest by simp
  ultimately show ?case
    using d' by simp
qed


text \<open>
  C7. The keys of an Assigner are \<open>assign\<close> and then the keys of each \<open>WithTags\<close>
  option, in the order given. \<open>nameOf\<close> a field is the tag's value under the first of
  the keys for which \<open>Tag.Get\<close> gives a value that is not empty, and the field's name
  when there is none. When \<open>assignStruct\<close> returns nil, the value of every field of the
  destination is what the recursive \<open>assign\<close> returned nil with, for the field's slot
  and the source field that \<open>FieldByName\<close> gave for the name \<open>nameOf\<close> resolved; the
  fields' declarations are as before.
\<close>

theorem field_name_lookup:
  "tags (From s (map WithTags tss)) = ''assign'' # concat tss
   \<and> nameOf a f =
       (case find (\<lambda>key. Tag_Get (Tag f) key \<noteq> []) (tags a) of
          None \<Rightarrow> Name f
        | Some key \<Rightarrow> Tag_Get (Tag f) key)
   \<and> (goval ds = VStruct fs \<and> assignStruct rec S a ds ss md = (Return None, d', md') \<longrightarrow>
        (\<exists>fs'. d' = VStruct fs' \<and> map fst fs' = map fst fs
           \<and> (\<forall>j<length fs. \<exists>sf m m'.
                  FieldByName S ss (nameOf a (fst (fs ! j))) = Inr sf
                  \<and> rec \<lparr>goval = snd (fs ! j),
                          flagCanSet = (flagCanSet ds \<and> PkgPath (fst (fs ! j)) = [])\<rparr> sf m
                      = (Return None, snd (fs' ! j), m'))))"
proof -
  have 1: "tags (From s (map WithTags tss)) = ''assign'' # concat tss"
    by (simp add: From_def WithTags_foldl)
  have 2: "nameOf a f =
       (case find (\<lambda>key. Tag_Get (Tag f) key \<noteq> []) (tags a) of
          None \<Rightarrow> Name f
        | Some key \<Rightarrow> Tag_Get (Tag f) key)"
    by (simp add: nameOf_def nameOf_tags_find)
  have 3: "\<exists>fs'. d' = VStruct fs' \<and> map fst fs' = map fst fs
           \<and> (\<forall>j<length fs. \<exists>sf m m'.
                  FieldByName S ss (nameOf a (fst (fs ! j))) = Inr sf
                  \<and> rec \<lparr>goval = snd (fs ! j),
                          flagCanSet = (flagCanSet ds \<and> PkgPath (fst (fs ! j)) = [])\<rparr> sf m
                      = (Return None, snd (fs' ! j), m'))"
    if ds: "goval ds = VStruct fs" and r: "assignStruct rec S a ds ss md = (Return None, d', md')"
  proof -
    from r ds have "forEach
     (\<lambda>i (d, m).
        case d of
          VStruct fs \<Rightarrow>
            (let f = fst (fs ! i);
                 df = \<lparr>goval = snd (fs ! i), flagCanSet = (flagCanSet ds \<and> PkgPath f = [])\<rparr>;
                 dn = nameOf a f
             in case FieldByName S ss dn of
                  Inl p \<Rightarrow> (Panic p, d, m)
                | Inr sf \<Rightarrow>
                   (case rec df sf m of
                      (fl, fv, m') \<Rightarrow> (fl, VStruct (fs[i := (f, fv)]), m')))
        | _ \<Rightarrow> (Panic ''reflect: call of reflect.Value.Field on a Value that is no struct'', d, m))
     [0..<length fs] (VStruct fs, md) = (Return None, d', md')"
      unfolding assignStruct_def
      by (simp split: sum.splits if_splits)
    from struct_loop [OF this] show ?thesis
      by auto
  qed
  from 1 2 3 show ?thesis by blast
qed

theorem field_name_lookup_witness:
  "tags (From (Some (0::nat)) (map WithTags [[''json'']])) = [''assign'', ''json'']
   \<and> nameOf (From (Some (0::nat)) (map WithTags [[''json'']]))
        (StructField ''FooGoToBar'' [] (TBasic KString)
           [(''assign'', ''BarGoToFoo''), ('',json'', ''FooGoToBar'')]) = ''BarGoToFoo''
   \<and> nameOf (From (Some (0::nat)) (map WithTags [[''json'']]))
        (StructField ''BazGoToQux'' [] (TBasic KString) [(''json'', ''QuxGoToBaz'')]) = ''QuxGoToBaz''
   \<and> nameOf (From (Some (0::nat)) []) 
        (StructField ''BazGoToQux'' [] (TBasic KString) [(''json'', ''QuxGoToBaz'')]) = ''BazGoToQux''
   \<and> assignStruct
        (assign (Suc 0) (exampleReflect cycleDecls) (goSource tagsHeap)
           (From (Some 0) (map WithTags [[''json'']])))
        (goSource tagsHeap) (From (Some 0) (map WithTags [[''json'']]))
        \<lparr>goval = zero tTags, flagCanSet = True\<rparr> (Some 0) (Some \<lparr>visited = {9}, cur = 0\<rparr>)
      = (Return None,
         VStruct [(StructField ''FooGoToBar'' [] (TBasic KString)
                     [(''assign'', ''BarGoToFoo''), ('',json'', ''FooGoToBar'')], VString ''two''),
                  (StructField ''BarGoToFoo'' [] (TBasic KString)
                     [(''assign'', ''FooGoToBar''), (''json'', ''BarGoToFoo'')], VString ''one''),
                  (StructField ''BazGoToQux'' [] (TBasic KString) [(''json'', ''QuxGoToBaz'')],
                   VString ''four''),
                  (StructField ''QuxGoToBaz'' [] (TBasic KString) [(''json'', ''BazGoToQux'')],
                   VString ''three'')],
         Some \<lparr>visited = {9}, cur = 0\<rparr>)
   \<and> (\<exists>sf m m'. FieldByName (goSource tagsHeap) (Some 0) ''QuxGoToBaz'' = Inr sf
          \<and> assign (Suc 0) (exampleReflect cycleDecls) (goSource tagsHeap)
               (From (Some 0) (map WithTags [[''json'']]))
               \<lparr>goval = VString [], flagCanSet = True\<rparr> sf m
             = (Return None, VString ''four'', m'))"
proof -
  let ?S = "goSource tagsHeap"
  let ?a = "From (Some (0::nat)) (map WithTags [[''json'']])"
  let ?rec = "assign (Suc 0) (exampleReflect cycleDecls) ?S ?a"
  let ?fs = "[(StructField ''FooGoToBar'' [] (TBasic KString)
                     [(''assign'', ''BarGoToFoo''), ('',json'', ''FooGoToBar'')], VString []),
                  (StructField ''BarGoToFoo'' [] (TBasic KString)
                     [(''assign'', ''FooGoToBar''), (''json'', ''BarGoToFoo'')], VString []),
                  (StructField ''BazGoToQux'' [] (TBasic KString) [(''json'', ''QuxGoToBaz'')],
                   VString []),
                  (StructField ''QuxGoToBaz'' [] (TBasic KString) [(''json'', ''BazGoToQux'')],
                   VString [])]"
  let ?res = "[(StructField ''FooGoToBar'' [] (TBasic KString)
                     [(''assign'', ''BarGoToFoo''), ('',json'', ''FooGoToBar'')], VString ''two''),
                  (StructField ''BarGoToFoo'' [] (TBasic KString)
                     [(''assign'', ''FooGoToBar''), (''json'', ''BarGoToFoo'')], VString ''one''),
                  (StructField ''BazGoToQux'' [] (TBasic KString) [(''json'', ''QuxGoToBaz'')],
                   VString ''four''),
                  (StructField ''QuxGoToBaz'' [] (TBasic KString) [(''json'', ''BazGoToQux'')],
                   VString ''three'')]"
  let ?md = "Some \<lparr>visited = {9}, cur = 0\<rparr>"
  have z: "goval \<lparr>goval = zero tTags, flagCanSet = True\<rparr> = VStruct ?fs"
    by code_simp
  have r: "assignStruct ?rec ?S ?a \<lparr>goval = zero tTags, flagCanSet = True\<rparr> (Some 0) ?md
             = (Return None, VStruct ?res, ?md)"
    by code_simp
  have n0: "nameOf (From (Some (0::nat)) [])
        (StructField ''BazGoToQux'' [] (TBasic KString) [(''json'', ''QuxGoToBaz'')]) = ''BazGoToQux''"
    by code_simp
  note t = field_name_lookup [where s = "Some (0::nat)" and tss = "[[''json'']]" and a = ?a
      and ds = "\<lparr>goval = zero tTags, flagCanSet = True\<rparr>" and fs = ?fs and rec = ?rec and S = ?S
      and ss = "Some 0" and md = ?md and d' = "VStruct ?res" and md' = ?md]
  have 1: "tags ?a = [''assign'', ''json'']"
    using t [where f = undefined] by simp
  have 2: "nameOf ?a (StructField ''FooGoToBar'' [] (TBasic KString)
           [(''assign'', ''BarGoToFoo''), ('',json'', ''FooGoToBar'')]) = ''BarGoToFoo''"
    using t [where f = "StructField ''FooGoToBar'' [] (TBasic KString)
           [(''assign'', ''BarGoToFoo''), ('',json'', ''FooGoToBar'')]"] 1
    by (simp add: Tag_Get_def)
  have 3: "nameOf ?a (StructField ''BazGoToQux'' [] (TBasic KString) [(''json'', ''QuxGoToBaz'')])
             = ''QuxGoToBaz''"
    using t [where f = "StructField ''BazGoToQux'' [] (TBasic KString) [(''json'', ''QuxGoToBaz'')]"] 1
    by (simp add: Tag_Get_def)
  from t [where f = undefined] z r obtain fs' where
    fs': "VStruct ?res = VStruct fs'"
    and all: "\<forall>j<length ?fs. \<exists>sf m m'.
                  FieldByName ?S (Some 0) (nameOf ?a (fst (?fs ! j))) = Inr sf
                  \<and> ?rec \<lparr>goval = snd (?fs ! j),
                          flagCanSet = (flagCanSet \<lparr>goval = zero tTags, flagCanSet = True\<rparr>
                             \<and> PkgPath (fst (?fs ! j)) = [])\<rparr> sf m
                      = (Return None, snd (fs' ! j), m')"
    by blast
  from fs' have e: "fs' = ?res" by simp
  from all [rule_format, of 2] e 3 have 4: "\<exists>sf m m'. FieldByName ?S (Some 0) ''QuxGoToBaz'' = Inr sf
          \<and> ?rec \<lparr>goval = VString [], flagCanSet = True\<rparr> sf m = (Return None, VString ''four'', m')"
    by (simp del: assign.simps)
  from 1 2 3 n0 r 4 show ?thesis
    by blast
qed

section \<open>Basic values\<close>




end
